theory Spec2Isabelle
  imports Complex_Main "HOL-Library.Sublist"
begin

section \<open>The EVCity simulation engine (src/gym_env/ev_city.py)\<close>

text \<open>
  The engine \<^verbatim>\<open>EVCity\<close> is embedded with explicit state passing: the object's
  attributes are the fields of the record \<open>EVCity\<close>, a method takes the state and returns
  the state it leaves behind, and every \<^verbatim>\<open>raise\<close> and failed \<^verbatim>\<open>assert\<close> is a
  \<open>Raised\<close> outcome that carries the state as the exception finds it (Python keeps the
  mutations made before an exception). Floats are read as real numbers. Printing, the
  terminal rendering of \<^verbatim>\<open>visualize\<close> and the pickle file written by
  \<^verbatim>\<open>save_sim_replay\<close> change no attribute and are left out.

  An EV object is held by value: the copy stored in a port, the one appended to
  \<^verbatim>\<open>self.EVs\<close> and the one in \<^verbatim>\<open>self.ev_profiles\<close> are snapshots taken when the
  engine touches them.
\<close>

subsection \<open>Exceptions and outcomes\<close>

datatype error =
    AssertionError_episode_done
  | ValueError_max_stay
  | IndexError
  | NotImplementedError
  | CapacityError
  | StationStepError

datatype ('s, 'a) outcome = Raised error 's | Returned 's 'a

subsection \<open>Python and NumPy indexing\<close>

text \<open>
  \<^verbatim>\<open>xs[i]\<close> on a sequence of length \<open>n\<close>: a negative index counts from the end, and
  an index outside \<open>[-n, n)\<close> raises IndexError (here: \<open>None\<close>).
\<close>

definition py_pos :: "nat \<Rightarrow> int \<Rightarrow> nat option" where
  "py_pos n i =
     (let j = (if i < 0 then int n + i else i)
      in if 0 \<le> j \<and> j < int n then Some (nat j) else None)"

text \<open>\<^verbatim>\<open>prices[i, j]\<close> on a two-dimensional array, held as a list of rows.\<close>

definition price_at :: "real list list \<Rightarrow> int \<Rightarrow> int \<Rightarrow> real option" where
  "price_at m i j =
     (case py_pos (length m) i of
        None \<Rightarrow> None
      | Some r \<Rightarrow>
          (case py_pos (length (m ! r)) j of
             None \<Rightarrow> None
           | Some c \<Rightarrow> Some (m ! r ! c)))"

subsection \<open>The random number generator\<close>

text \<open>
  NumPy's global generator is a library, not code of the repository. Its state is the
  number of calls made so far; \<open>rand_seq g n\<close>, \<open>uniform_seq g n\<close> and \<open>randint_seq g n\<close>
  are what the call number \<open>n\<close> returns when it is \<^verbatim>\<open>np.random.rand()\<close>,
  \<^verbatim>\<open>np.random.uniform(1, 49)\<close> or \<^verbatim>\<open>np.random.randint(7, 15)\<close>. The engine makes no
  other call. \<open>rng_in_range\<close> states the ranges NumPy documents for the three calls.
\<close>

record np_random =
  rand_seq :: "nat \<Rightarrow> real"
  uniform_seq :: "nat \<Rightarrow> real"
  randint_seq :: "nat \<Rightarrow> int"
  n_calls :: nat

definition np_rand :: "np_random \<Rightarrow> real \<times> np_random" where
  "np_rand g = (rand_seq g (n_calls g), g\<lparr>n_calls := Suc (n_calls g)\<rparr>)"

definition np_uniform_1_49 :: "np_random \<Rightarrow> real \<times> np_random" where
  "np_uniform_1_49 g = (uniform_seq g (n_calls g), g\<lparr>n_calls := Suc (n_calls g)\<rparr>)"

definition np_randint_7_15 :: "np_random \<Rightarrow> int \<times> np_random" where
  "np_randint_7_15 g = (randint_seq g (n_calls g), g\<lparr>n_calls := Suc (n_calls g)\<rparr>)"

definition rng_in_range :: "np_random \<Rightarrow> bool" where
  "rng_in_range g =
     (\<forall>n. 0 \<le> rand_seq g n \<and> rand_seq g n < 1 \<and>
          1 \<le> uniform_seq g n \<and> uniform_seq g n < 49 \<and>
          7 \<le> randint_seq g n \<and> randint_seq g n < 15)"

subsection \<open>EV, charging station and transformer\<close>

text \<open>
  Modelled from the spec: the classes \<^verbatim>\<open>EV\<close>, \<^verbatim>\<open>EV_Charger\<close> and \<^verbatim>\<open>Transformer\<close>
  (ev.py, ev_charger.py and transformer.py are not among the sources). The records hold
  the attributes the engine reads or passes to the constructors, under the names the
  engine uses.

  An EV has the five constructor arguments of the engine's call and its current state of
  charge, which starts at the battery capacity at arrival.
\<close>

record EV =
  ev_id :: "int option"
  location :: int
  battery_capacity_at_arrival :: real
  time_of_arrival :: int
  earlier_time_of_departure :: int
  current_capacity :: real

definition EV_init :: "int option \<Rightarrow> int \<Rightarrow> real \<Rightarrow> int \<Rightarrow> int \<Rightarrow> EV" where
  "EV_init i loc b t_arr t_dep =
     \<lparr>ev_id = i, location = loc, battery_capacity_at_arrival = b,
      time_of_arrival = t_arr, earlier_time_of_departure = t_dep,
      current_capacity = b\<rparr>"

text \<open>
  Modelled from the spec: a station owns a fixed number of ports, each slot holding at
  most one EV or being empty. \<open>evs_connected\<close> has one slot per port, so \<open>n_ports\<close> is
  its length and \<open>n_evs_connected\<close> the number of occupied slots.
\<close>

record EV_Charger =
  cs_id :: int
  connected_bus :: "int option"
  connected_transformer :: int
  evs_connected :: "EV option list"
  current_power_output :: real
  total_evs_served :: nat
  total_profits :: real
  total_energy_charged :: real
  total_energy_discharged :: real

definition n_ports :: "EV_Charger \<Rightarrow> nat" where
  "n_ports c = length (evs_connected c)"

definition n_evs_connected :: "EV_Charger \<Rightarrow> nat" where
  "n_evs_connected c = length (filter (\<lambda>p. p \<noteq> None) (evs_connected c))"

fun first_free :: "EV option list \<Rightarrow> nat option" where
  "first_free [] = None"
| "first_free (None # ps) = Some 0"
| "first_free (Some e # ps) = map_option Suc (first_free ps)"

text \<open>
  Modelled from the spec: \<^verbatim>\<open>spawn_ev(ev)\<close> assigns the EV to the first free port and
  signals a capacity error if no port is free.
\<close>

definition spawn_ev :: "EV_Charger \<Rightarrow> EV \<Rightarrow> error + EV_Charger" where
  "spawn_ev c ev =
     (case first_free (evs_connected c) of
        None \<Rightarrow> Inl CapacityError
      | Some p \<Rightarrow> Inr (c\<lparr>evs_connected := (evs_connected c)[p := Some ev]\<rparr>))"

text \<open>
  Modelled from the spec: the station's \<^verbatim>\<open>reset()\<close> empties all ports and zeros the
  cumulative totals.
\<close>

definition cs_reset :: "EV_Charger \<Rightarrow> EV_Charger" where
  "cs_reset c =
     c\<lparr>evs_connected := replicate (n_ports c) None,
       total_evs_served := 0, total_profits := 0,
       total_energy_charged := 0, total_energy_discharged := 0\<rparr>"

text \<open>
  Modelled from the spec: a transformer has the ids of its stations, a rated capacity and
  the power aggregated in the current step; \<^verbatim>\<open>step(power)\<close> adds a station's output to
  \<open>current_power\<close>, \<^verbatim>\<open>is_overloaded()\<close> holds iff the accumulated power exceeds the rated
  capacity, and \<^verbatim>\<open>get_state()\<close> returns the current power and the capacity.
\<close>

record Transformer =
  tr_id :: int
  cs_ids :: "int list"
  rated_capacity :: real
  current_power :: real

definition Transformer_step :: "Transformer \<Rightarrow> real \<Rightarrow> Transformer" where
  "Transformer_step tr p = tr\<lparr>current_power := current_power tr + p\<rparr>"

definition is_overloaded :: "Transformer \<Rightarrow> bool" where
  "is_overloaded tr = (current_power tr > rated_capacity tr)"

definition tr_get_state :: "Transformer \<Rightarrow> real list" where
  "tr_get_state tr = [current_power tr, rated_capacity tr]"

text \<open>
  What the spec leaves open is a parameter of the engine: the station's
  \<^verbatim>\<open>step(actions, charge_price, discharge_price)\<close>, which returns the station as it
  leaves it with the cost and the satisfaction scores of the EVs that departed (\<open>None\<close>
  when it raises, the station then untouched), the station's \<^verbatim>\<open>get_state()\<close>, and the
  EV's \<^verbatim>\<open>reset()\<close>.
\<close>

record externals =
  cs_step :: "EV_Charger \<Rightarrow> real list \<Rightarrow> real \<Rightarrow> real \<Rightarrow> (EV_Charger \<times> real \<times> real list) option"
  cs_get_state :: "EV_Charger \<Rightarrow> real list"
  ev_reset :: "EV \<Rightarrow> EV"

subsection \<open>The engine's state\<close>

text \<open>
  The attributes of \<^verbatim>\<open>EVCity\<close> that \<^verbatim>\<open>reset\<close> and \<^verbatim>\<open>step\<close> read or write.
  \<open>done_flag\<close> is \<^verbatim>\<open>self.done\<close>, \<open>sim_date\<close> the simulated clock in minutes,
  \<open>spawn_rate\<close> is \<open>None\<close> until \<^verbatim>\<open>step\<close> first assigns it, \<open>ev_profiles = None\<close> is
  the random spawn mode.
\<close>

record EVCity =
  generate_rnd_game :: bool
  empty_ports_at_end_of_simulation :: bool
  save_replay :: bool
  simulation_length :: int
  cs :: int
  score_threshold :: real
  timescale :: int
  sim_date :: int
  simulate_grid :: bool
  transformers :: "Transformer list"
  charging_stations :: "EV_Charger list"
  ev_profiles :: "EV list option"
  charge_prices :: "real list list"
  discharge_prices :: "real list list"
  current_step :: int
  total_evs_spawned :: nat
  current_ev_departed :: nat
  current_ev_arrived :: nat
  current_evs_parked :: int
  done_flag :: bool
  EVs :: "EV list"
  spawn_rate :: "real option"
  rng :: np_random

record step_locals =
  total_costs :: real
  user_satisfaction_list :: "real list"
  port_counter :: nat

subsection \<open>Observation, reward, clock\<close>

definition get_observation :: "externals \<Rightarrow> EVCity \<Rightarrow> real list" where
  "get_observation D s =
     [real_of_int (current_step s), real_of_int (timescale s), real_of_int (cs s)]
     @ concat (map tr_get_state (transformers s))
     @ concat (map (cs_get_state D) (charging_stations s))"

definition calculate_reward :: "real \<Rightarrow> real list \<Rightarrow> real" where
  "calculate_reward total_costs_arg user_satisfaction_arg = total_costs_arg"

definition step_date :: "EVCity \<Rightarrow> EVCity" where
  "step_date s = s\<lparr>sim_date := sim_date s + timescale s\<rparr>"

subsection \<open>reset\<close>

definition reset :: "externals \<Rightarrow> EVCity \<Rightarrow> EVCity \<times> real list" where
  "reset D s =
     (let s1 = s\<lparr>current_step := 0,
                 charging_stations := map cs_reset (charging_stations s)\<rparr>
      in (s1, get_observation D s1))"

subsection \<open>step: one station of the loop\<close>

text \<open>
  Lines 246 to 261: the station \<open>c\<close>, at position \<open>i\<close> of \<^verbatim>\<open>self.charging_stations\<close>,
  is stepped with its slice of the actions and this step's prices, and its power is fed
  to its transformer.
\<close>

definition dispatch_station ::
  "externals \<Rightarrow> real list \<Rightarrow> nat \<Rightarrow> EV_Charger \<Rightarrow> step_locals \<Rightarrow> EVCity
     \<Rightarrow> (EVCity, EV_Charger \<times> step_locals) outcome" where
  "dispatch_station D actions i c L s =
     (case price_at (charge_prices s) (cs_id c) (current_step s) of
        None \<Rightarrow> Raised IndexError s
      | Some cp \<Rightarrow>
     (case price_at (discharge_prices s) (cs_id c) (current_step s) of
        None \<Rightarrow> Raised IndexError s
      | Some dp \<Rightarrow>
     (case cs_step D c (take (n_ports c) (drop (port_counter L) actions)) cp dp of
        None \<Rightarrow> Raised StationStepError s
      | Some (c', costs, user_satisfaction) \<Rightarrow>
          (let s1 = s\<lparr>charging_stations := (charging_stations s)[i := c']\<rparr>
           in case py_pos (length (transformers s1)) (connected_transformer c') of
                None \<Rightarrow> Raised IndexError s1
              | Some k \<Rightarrow>
                  Returned
                    (s1\<lparr>transformers :=
                          (transformers s1)
                            [k := Transformer_step (transformers s1 ! k) (current_power_output c')],
                        current_ev_departed :=
                          current_ev_departed s1 + length user_satisfaction\<rparr>)
                    (c', \<lparr>total_costs = total_costs L + costs,
                          user_satisfaction_list = user_satisfaction_list L @ user_satisfaction,
                          port_counter = port_counter L + n_ports c\<rparr>)))))"

definition max_stay_of_ev :: int where
  "max_stay_of_ev = 15"

text \<open>
  Lines 265 to 293, the random spawn mode: \<open>n\<close> is the port count read before the
  station was stepped, \<open>c'\<close> the station after its step.
\<close>

definition spawn_random :: "nat \<Rightarrow> nat \<Rightarrow> EV_Charger \<Rightarrow> EVCity \<Rightarrow> (EVCity, unit) outcome" where
  "spawn_random i n c' s =
     (if max_stay_of_ev > simulation_length s then
        Raised ValueError_max_stay (s\<lparr>empty_ports_at_end_of_simulation := False\<rparr>)
      else if \<not> (empty_ports_at_end_of_simulation s \<and>
                  current_step s + 1 + max_stay_of_ev \<ge> simulation_length s) \<and>
              n > n_evs_connected c' then
        (let (u, g1) = np_rand (rng s);
             s1 = s\<lparr>spawn_rate := Some 0.8, rng := g1\<rparr>
         in if u < 0.8 then
              (let (b, g2) = np_uniform_1_49 g1;
                   (k, g3) = np_randint_7_15 g2;
                   ev = EV_init None (cs_id c') b (current_step s + 1) (current_step s + 1 + k);
                   s2 = s1\<lparr>rng := g3\<rparr>
               in case spawn_ev c' ev of
                    Inl e \<Rightarrow> Raised e s2
                  | Inr c'' \<Rightarrow>
                      Returned
                        (s2\<lparr>charging_stations := (charging_stations s2)[i := c''],
                            EVs := (if save_replay s2 then EVs s2 @ [ev] else EVs s2),
                            total_evs_spawned := total_evs_spawned s2 + 1,
                            current_ev_arrived := current_ev_arrived s2 + 1\<rparr>)
                        ())
            else Returned s1 ())
      else Returned s ())"

definition station_iteration ::
  "externals \<Rightarrow> real list \<Rightarrow> nat \<Rightarrow> EV_Charger \<Rightarrow> step_locals \<Rightarrow> EVCity
     \<Rightarrow> (EVCity, step_locals) outcome" where
  "station_iteration D actions i c L s =
     (case dispatch_station D actions i c L s of
        Raised e s' \<Rightarrow> Raised e s'
      | Returned s' (c', L') \<Rightarrow>
          (if ev_profiles s' = None then
             (case spawn_random i (n_ports c) c' s' of
                Raised e s'' \<Rightarrow> Raised e s''
              | Returned s'' u \<Rightarrow> Returned s'' L')
           else Returned s' L'))"

text \<open>
  The loop over \<^verbatim>\<open>self.charging_stations\<close>: \<open>i\<close> is the position of the head of the
  stations still to visit.
\<close>

fun station_loop ::
  "externals \<Rightarrow> real list \<Rightarrow> nat \<Rightarrow> EV_Charger list \<Rightarrow> step_locals \<Rightarrow> EVCity
     \<Rightarrow> (EVCity, step_locals) outcome" where
  "station_loop D actions i [] L s = Returned s L"
| "station_loop D actions i (c # rest) L s =
     (case station_iteration D actions i c L s of
        Raised e s' \<Rightarrow> Raised e s'
      | Returned s' L' \<Rightarrow> station_loop D actions (Suc i) rest L' s')"

subsection \<open>step: the profile spawn mode\<close>

text \<open>
  Lines 299 to 312: \<open>j\<close> is the position in \<^verbatim>\<open>self.ev_profiles\<close> of the head of the
  profiles still to scan; \<open>profile_spawn\<close> is the body of the first branch (lines 303 to
  309), where the EV is reset in place and handed to the station at its location.
\<close>

definition profile_spawn :: "externals \<Rightarrow> nat \<Rightarrow> EV \<Rightarrow> EVCity \<Rightarrow> (EVCity, unit) outcome" where
  "profile_spawn D j ev s =
     (let ev' = ev_reset D ev;
          s1 = s\<lparr>ev_profiles := map_option (\<lambda>p. p[j := ev']) (ev_profiles s)\<rparr>
      in case py_pos (length (charging_stations s1)) (location ev') of
           None \<Rightarrow> Raised IndexError s1
         | Some k \<Rightarrow>
             (case spawn_ev (charging_stations s1 ! k) ev' of
                Inl e \<Rightarrow> Raised e s1
              | Inr c' \<Rightarrow>
                  Returned
                    (s1\<lparr>charging_stations := (charging_stations s1)[k := c'],
                        total_evs_spawned := total_evs_spawned s1 + 1,
                        current_ev_arrived := current_ev_arrived s1 + 1,
                        EVs := (if save_replay s1 then EVs s1 @ [ev'] else EVs s1)\<rparr>)
                    ()))"

fun profile_loop :: "externals \<Rightarrow> nat \<Rightarrow> EV list \<Rightarrow> EVCity \<Rightarrow> (EVCity, unit) outcome" where
  "profile_loop D j [] s = Returned s ()"
| "profile_loop D j (ev # rest) s =
     (if time_of_arrival ev = current_step s + 1 then
        (case profile_spawn D j ev s of
           Raised e s' \<Rightarrow> Raised e s'
         | Returned s' u \<Rightarrow> profile_loop D (Suc j) rest s')
      else if time_of_arrival ev > current_step s + 1 then Returned s ()
      else profile_loop D (Suc j) rest s)"

definition spawn_profiles :: "externals \<Rightarrow> EVCity \<Rightarrow> (EVCity, unit) outcome" where
  "spawn_profiles D s =
     (case ev_profiles s of
        None \<Rightarrow> Returned s ()
      | Some profiles \<Rightarrow>
          profile_loop D (total_evs_spawned s) (drop (total_evs_spawned s) profiles) s)"

subsection \<open>step: clock, reward and termination\<close>

text \<open>Lines 314 to 355.\<close>

definition episode_over :: "EVCity \<Rightarrow> real list \<Rightarrow> bool" where
  "episode_over s scores =
     (current_step s \<ge> simulation_length s \<or>
      list_ex (\<lambda>score. score < score_threshold s) scores \<or>
      (list_ex is_overloaded (transformers s) \<and> \<not> generate_rnd_game s))"

definition finish_step ::
  "externals \<Rightarrow> EVCity \<Rightarrow> step_locals \<Rightarrow> (EVCity, real list \<times> real \<times> bool) outcome" where
  "finish_step D s L =
     (let s1 = step_date (s\<lparr>current_step := current_step s + 1\<rparr>);
          s2 = s1\<lparr>current_evs_parked :=
                    current_evs_parked s1
                    + (int (current_ev_arrived s1) - int (current_ev_departed s1))\<rparr>
      in if simulate_grid s2 then Raised NotImplementedError s2
         else
           (let reward = calculate_reward (total_costs L) (user_satisfaction_list L)
            in if episode_over s2 (user_satisfaction_list L) then
                 (let s3 = s2\<lparr>done_flag := True\<rparr>
                  in Returned s3 (get_observation D s3, reward, True))
               else Returned s2 (get_observation D s2, reward, False)))"

subsection \<open>step\<close>

definition begin_step :: "EVCity \<Rightarrow> EVCity" where
  "begin_step s =
     s\<lparr>current_ev_departed := 0, current_ev_arrived := 0,
       transformers := map (\<lambda>tr. tr\<lparr>current_power := 0\<rparr>) (transformers s)\<rparr>"

definition locals_init :: step_locals where
  "locals_init = \<lparr>total_costs = 0, user_satisfaction_list = [], port_counter = 0\<rparr>"

definition step ::
  "externals \<Rightarrow> EVCity \<Rightarrow> real list \<Rightarrow> (EVCity, real list \<times> real \<times> bool) outcome" where
  "step D s actions =
     (if done_flag s then Raised AssertionError_episode_done s
      else
        (let s0 = begin_step s
         in case station_loop D actions 0 (charging_stations s0) locals_init s0 of
              Raised e s' \<Rightarrow> Raised e s'
            | Returned s1 L \<Rightarrow>
                (case spawn_profiles D s1 of
                   Raised e s' \<Rightarrow> Raised e s'
                 | Returned s2 u \<Rightarrow> finish_step D s2 L)))"

subsection \<open>The calls a step makes to its stations\<close>

text \<open>
  The loop hands the stations, in the order of \<^verbatim>\<open>self.charging_stations\<close>, contiguous
  slices of the action vector: \<open>call_station\<close> is the call \<^verbatim>\<open>cs.step(...)\<close> of
  lines 247 to 250 at port counter \<open>pc\<close> (\<open>None\<close> when a price lookup or the station
  raises), \<open>station_calls\<close> the calls for a list of stations, \<open>step_calls\<close> those of one
  \<^verbatim>\<open>step\<close>.
\<close>

definition call_station ::
  "externals \<Rightarrow> real list list \<Rightarrow> real list list \<Rightarrow> int \<Rightarrow> real list \<Rightarrow> nat \<Rightarrow> EV_Charger
     \<Rightarrow> (EV_Charger \<times> real \<times> real list) option" where
  "call_station D cps dps t actions pc c =
     (case price_at cps (cs_id c) t of
        None \<Rightarrow> None
      | Some cp \<Rightarrow>
          (case price_at dps (cs_id c) t of
             None \<Rightarrow> None
           | Some dp \<Rightarrow> cs_step D c (take (n_ports c) (drop pc actions)) cp dp))"

fun station_calls ::
  "externals \<Rightarrow> real list list \<Rightarrow> real list list \<Rightarrow> int \<Rightarrow> real list \<Rightarrow> nat \<Rightarrow> EV_Charger list
     \<Rightarrow> (EV_Charger \<times> real \<times> real list) option list" where
  "station_calls D cps dps t actions pc [] = []"
| "station_calls D cps dps t actions pc (c # rest) =
     call_station D cps dps t actions pc c
     # station_calls D cps dps t actions (pc + n_ports c) rest"

definition step_calls ::
  "externals \<Rightarrow> EVCity \<Rightarrow> real list \<Rightarrow> (EV_Charger \<times> real \<times> real list) option list" where
  "step_calls D s actions =
     station_calls D (charge_prices s) (discharge_prices s) (current_step s) actions 0
       (charging_stations s)"

definition call_cost :: "(EV_Charger \<times> real \<times> real list) option \<Rightarrow> real" where
  "call_cost r = (case r of None \<Rightarrow> 0 | Some (c', cost, us) \<Rightarrow> cost)"

definition call_scores :: "(EV_Charger \<times> real \<times> real list) option \<Rightarrow> real list" where
  "call_scores r = (case r of None \<Rightarrow> [] | Some (c', cost, us) \<Rightarrow> us)"

subsection \<open>Episodes\<close>

text \<open>\<open>run_steps\<close> makes the calls \<^verbatim>\<open>step(a)\<close> for the action vectors of a list, one after the
  other, and is \<open>None\<close> as soon as one of them raises.\<close>

fun run_steps :: "externals \<Rightarrow> EVCity \<Rightarrow> real list list \<Rightarrow> EVCity option" where
  "run_steps D s [] = Some s"
| "run_steps D s (a # as) =
     (case step D s a of
        Raised e s' \<Rightarrow> None
      | Returned s' out \<Rightarrow> run_steps D s' as)"

subsection \<open>What the two loops leave alone\<close>

definition same_config :: "EVCity \<Rightarrow> EVCity \<Rightarrow> bool" where
  "same_config s s' =
     (current_step s' = current_step s \<and> simulation_length s' = simulation_length s \<and>
      done_flag s' = done_flag s \<and> charge_prices s' = charge_prices s \<and>
      discharge_prices s' = discharge_prices s \<and> ev_profiles s' = ev_profiles s \<and>
      save_replay s' = save_replay s \<and> simulate_grid s' = simulate_grid s \<and>
      score_threshold s' = score_threshold s \<and> generate_rnd_game s' = generate_rnd_game s \<and>
      length (transformers s') = length (transformers s) \<and>
      length (charging_stations s') = length (charging_stations s))"

definition same_run :: "EVCity \<Rightarrow> EVCity \<Rightarrow> bool" where
  "same_run s s' =
     (current_step s' = current_step s \<and> simulation_length s' = simulation_length s \<and>
      done_flag s' = done_flag s \<and> simulate_grid s' = simulate_grid s \<and>
      score_threshold s' = score_threshold s \<and> generate_rnd_game s' = generate_rnd_game s \<and>
      transformers s' = transformers s \<and>
      map current_power_output (charging_stations s') = map current_power_output (charging_stations s) \<and>
      map connected_transformer (charging_stations s') = map connected_transformer (charging_stations s))"

subsection \<open>Transformers and their stations\<close>

text \<open>
  The engine feeds the power of a station to \<^verbatim>\<open>self.transformers[cs.connected_transformer]\<close>:
  the stations of the transformer at position \<open>k\<close>, of \<open>n\<close> transformers, are those whose
  \<open>connected_transformer\<close> is the Python index of \<open>k\<close>. \<open>assigned_power n k css\<close> is the
  sum of the power outputs of those of the stations \<open>css\<close>.
\<close>

definition assigned_power :: "nat \<Rightarrow> nat \<Rightarrow> EV_Charger list \<Rightarrow> real" where
  "assigned_power n k css =
     sum_list (map current_power_output
       (filter (\<lambda>c. py_pos n (connected_transformer c) = Some k) css))"

subsection \<open>What the random spawn mode does for one station\<close>

text \<open>
  \<open>spawn_ok s n c' sp c''\<close> relates the station \<open>c'\<close> as its own step left it, the port
  count \<open>n\<close> read before that step, the EV spawned there in this step, if any, and the
  station \<open>c''\<close> at the end of the step, for a step that starts in the state \<open>s\<close>.
  \<open>spawned\<close> collects the EVs of a list of optional EVs.
\<close>

definition spawn_ok :: "EVCity \<Rightarrow> nat \<Rightarrow> EV_Charger \<Rightarrow> EV option \<Rightarrow> EV_Charger \<Rightarrow> bool" where
  "spawn_ok s n c' sp c'' =
     (case sp of
        None \<Rightarrow> c'' = c'
      | Some ev \<Rightarrow>
          spawn_ev c' ev = Inr c'' \<and> n_evs_connected c' < n \<and>
          \<not> (empty_ports_at_end_of_simulation s \<and>
              current_step s + 1 + max_stay_of_ev \<ge> simulation_length s) \<and>
          ev_id ev = None \<and> location ev = cs_id c' \<and>
          1 \<le> battery_capacity_at_arrival ev \<and> battery_capacity_at_arrival ev < 49 \<and>
          time_of_arrival ev = current_step s + 1 \<and>
          7 \<le> earlier_time_of_departure ev - (current_step s + 1) \<and>
          earlier_time_of_departure ev - (current_step s + 1) < 15)"

fun spawned :: "EV option list \<Rightarrow> EV list" where
  "spawned [] = []"
| "spawned (None # sps) = spawned sps"
| "spawned (Some ev # sps) = ev # spawned sps"

subsection \<open>Assumptions on the station's step\<close>


definition ports_fixed :: "externals \<Rightarrow> bool" where
  "ports_fixed D =
     (\<forall>c xs cp dp. case cs_step D c xs cp dp of
                      None \<Rightarrow> True
                    | Some (c', cost, us) \<Rightarrow> n_ports c' = n_ports c)"

subsection \<open>A station mock and a small engine\<close>

text \<open>
  A station mock that reports a known power, cost and list of scores, and rejects a slice
  that has not one action per port; an engine of one transformer and one station with one
  port, in the random spawn mode, with a generator that always draws 1/2, 20 and 9.
\<close>

definition mock_externals :: "real \<Rightarrow> real \<Rightarrow> real list \<Rightarrow> externals" where
  "mock_externals out_power cost scores =
     \<lparr>cs_step = (\<lambda>c xs cp dp.
         if length xs = n_ports c then Some (c\<lparr>current_power_output := out_power\<rparr>, cost, scores)
         else None),
      cs_get_state = (\<lambda>c. [current_power_output c]),
      ev_reset = (\<lambda>ev. ev)\<rparr>"

definition demo_rng :: np_random where
  "demo_rng = \<lparr>rand_seq = (\<lambda>n. 1 / 2), uniform_seq = (\<lambda>n. 20), randint_seq = (\<lambda>n. 9), n_calls = 0\<rparr>"

definition demo_station :: EV_Charger where
  "demo_station =
     \<lparr>cs_id = 0, connected_bus = None, connected_transformer = 0, evs_connected = [None],
      current_power_output = 0, total_evs_served = 0, total_profits = 0,
      total_energy_charged = 0, total_energy_discharged = 0\<rparr>"

definition demo_transformer :: Transformer where
  "demo_transformer = \<lparr>tr_id = 0, cs_ids = [0], rated_capacity = 100, current_power = 0\<rparr>"

definition demo_city :: EVCity where
  "demo_city =
     \<lparr>generate_rnd_game = False, empty_ports_at_end_of_simulation = True, save_replay = True,
      simulation_length = 20, cs = 1, score_threshold = 1, timescale = 5, sim_date = 0,
      simulate_grid = False, transformers = [demo_transformer],
      charging_stations = [demo_station], ev_profiles = None,
      charge_prices = [replicate 20 (- 1 / 20)], discharge_prices = [replicate 20 (1 / 10)],
      current_step = 0, total_evs_spawned = 0, current_ev_departed = 0, current_ev_arrived = 0,
      current_evs_parked = 0, done_flag = False, EVs = [], spawn_rate = None, rng = demo_rng\<rparr>"

text \<open>
  Variants: two stations in the profile mode with no profile; a station whose only port is
  taken while the next profile arrives there; an engine whose episode has finished.
\<close>

definition demo_city2 :: EVCity where
  "demo_city2 =
     demo_city\<lparr>cs := 2,
       charging_stations := [demo_station, demo_station\<lparr>cs_id := 1\<rparr>],
       charge_prices := [replicate 20 (- 1 / 20), replicate 20 (- 1 / 20)],
       discharge_prices := [replicate 20 (1 / 10), replicate 20 (1 / 10)],
       ev_profiles := Some []\<rparr>"

definition demo_ev0 :: EV where
  "demo_ev0 = EV_init None 0 20 1 10"

definition demo_ev1 :: EV where
  "demo_ev1 = EV_init None 0 30 2 12"

definition demo_full_city :: EVCity where
  "demo_full_city =
     demo_city\<lparr>ev_profiles := Some [demo_ev0, demo_ev1],
       charging_stations := [demo_station\<lparr>evs_connected := [Some demo_ev0]\<rparr>],
       current_step := 1, total_evs_spawned := 1, current_evs_parked := 1, EVs := [demo_ev0]\<rparr>"

definition demo_finished_city :: EVCity where
  "demo_finished_city =
     demo_city\<lparr>current_step := 20, done_flag := True,
       charging_stations := [demo_station\<lparr>evs_connected := [Some demo_ev0], total_evs_served := 4\<rparr>]\<rparr>"



section \<open>Lemmas\<close>

subsection \<open>The loop over the stations: what it leaves alone, what it accumulates\<close>

lemma same_config_refl: "same_config s s"
  by (simp add: same_config_def)

lemma same_config_trans: "same_config s s1 \<Longrightarrow> same_config s1 s2 \<Longrightarrow> same_config s s2"
  by (simp add: same_config_def)

lemma dispatch_station_config:
  "dispatch_station D a i c L s = Returned s' r \<Longrightarrow> same_config s s'"
  "dispatch_station D a i c L s = Raised e s' \<Longrightarrow> same_config s s' \<and> e \<noteq> AssertionError_episode_done"
  by (auto simp: dispatch_station_def same_config_def Let_def split: option.splits prod.splits)

lemma spawn_random_config:
  "spawn_random i n c' s = Returned s' r \<Longrightarrow> same_config s s'"
  "spawn_random i n c' s = Raised e s' \<Longrightarrow> same_config s s' \<and> e \<noteq> AssertionError_episode_done"
  by (auto simp: spawn_random_def spawn_ev_def same_config_def Let_def split: option.splits prod.splits if_splits sum.splits)

lemma station_iteration_config:
  "station_iteration D a i c L s = Returned s' L' \<Longrightarrow> same_config s s'"
  "station_iteration D a i c L s = Raised e s' \<Longrightarrow> same_config s s' \<and> e \<noteq> AssertionError_episode_done"
  by (auto simp: station_iteration_def split: outcome.splits prod.splits if_splits
       dest: dispatch_station_config spawn_random_config intro: same_config_trans)

lemma station_loop_config:
  "station_loop D a i rest L s = Returned s' L' \<Longrightarrow> same_config s s'"
  "station_loop D a i rest L s = Raised e s' \<Longrightarrow> same_config s s' \<and> e \<noteq> AssertionError_episode_done"
  by (induction rest arbitrary: i L s)
     (auto simp: same_config_refl split: outcome.splits
       dest: station_iteration_config intro: same_config_trans)

lemma dispatch_station_Returned:
  assumes "dispatch_station D a i c L s = Returned s' (c', L')"
  shows "\<exists>cost us k.
           call_station D (charge_prices s) (discharge_prices s) (current_step s) a (port_counter L) c
             = Some (c', cost, us) \<and>
           py_pos (length (transformers s)) (connected_transformer c') = Some k \<and>
           transformers s' =
             (transformers s)[k := Transformer_step (transformers s ! k) (current_power_output c')] \<and>
           charging_stations s' = (charging_stations s)[i := c'] \<and>
           total_costs L' = total_costs L + cost \<and>
           user_satisfaction_list L' = user_satisfaction_list L @ us \<and>
           port_counter L' = port_counter L + n_ports c"
  using assms
  by (auto simp: dispatch_station_def call_station_def Let_def split: option.splits prod.splits)

lemma spawn_random_locals_free:
  "spawn_random i n c' s = Returned s' u \<Longrightarrow>
     transformers s' = transformers s \<and> empty_ports_at_end_of_simulation s' = empty_ports_at_end_of_simulation s"
  by (auto simp: spawn_random_def Let_def split: if_splits prod.splits sum.splits)

lemma station_iteration_locals:
  assumes "station_iteration D a i c L s = Returned s' L'"
  shows "\<exists>c' cost us.
           call_station D (charge_prices s) (discharge_prices s) (current_step s) a (port_counter L) c
             = Some (c', cost, us) \<and>
           total_costs L' = total_costs L + cost \<and>
           user_satisfaction_list L' = user_satisfaction_list L @ us \<and>
           port_counter L' = port_counter L + n_ports c"
  using assms
  by (auto simp: station_iteration_def split: outcome.splits prod.splits if_splits
        dest!: dispatch_station_Returned)

lemma station_loop_locals:
  assumes "station_loop D a i rest L s = Returned s' L'"
  shows "list_all (\<lambda>r. r \<noteq> None)
           (station_calls D (charge_prices s) (discharge_prices s) (current_step s) a (port_counter L) rest) \<and>
         total_costs L' = total_costs L +
           sum_list (map call_cost
             (station_calls D (charge_prices s) (discharge_prices s) (current_step s) a (port_counter L) rest)) \<and>
         user_satisfaction_list L' = user_satisfaction_list L @
           concat (map call_scores
             (station_calls D (charge_prices s) (discharge_prices s) (current_step s) a (port_counter L) rest))"
  using assms
proof (induction rest arbitrary: i L s)
  case Nil
  then show ?case by simp
next
  case (Cons c rest)
  from Cons.prems obtain s1 L1 where
    it: "station_iteration D a i c L s = Returned s1 L1" and
    lp: "station_loop D a (Suc i) rest L1 s1 = Returned s' L'"
    by (auto split: outcome.splits)
  from station_iteration_config(1)[OF it] have cfg:
    "charge_prices s1 = charge_prices s" "discharge_prices s1 = discharge_prices s"
    "current_step s1 = current_step s"
    by (simp_all add: same_config_def)
  from station_iteration_locals[OF it] obtain c' cost us where
    call: "call_station D (charge_prices s) (discharge_prices s) (current_step s) a (port_counter L) c
             = Some (c', cost, us)" and
    L1: "total_costs L1 = total_costs L + cost"
        "user_satisfaction_list L1 = user_satisfaction_list L @ us"
        "port_counter L1 = port_counter L + n_ports c"
    by blast
  from Cons.IH[OF lp] show ?case
    by (simp add: cfg L1 call call_cost_def call_scores_def)
qed

subsection \<open>The profile spawn mode, the end of the step\<close>

lemma spawn_ev_fields:
  "spawn_ev c ev = Inr c' \<Longrightarrow>
     current_power_output c' = current_power_output c \<and>
     connected_transformer c' = connected_transformer c \<and>
     cs_id c' = cs_id c \<and> n_ports c' = n_ports c"
  by (auto simp: spawn_ev_def n_ports_def split: option.splits)

lemma profile_spawn_Returned:
  assumes "profile_spawn D j ev s = Returned s' u"
  shows "same_run s s'"
proof -
  from assms obtain k c' where
    k: "py_pos (length (charging_stations s)) (location (ev_reset D ev)) = Some k" and
    sp: "spawn_ev (charging_stations s ! k) (ev_reset D ev) = Inr c'" and
    cs': "charging_stations s' = (charging_stations s)[k := c']" and
    rest: "current_step s' = current_step s" "simulation_length s' = simulation_length s"
      "done_flag s' = done_flag s" "simulate_grid s' = simulate_grid s"
      "score_threshold s' = score_threshold s" "generate_rnd_game s' = generate_rnd_game s"
      "transformers s' = transformers s"
    by (auto simp: profile_spawn_def Let_def split: option.splits sum.splits)
  from k have kl: "k < length (charging_stations s)"
    by (auto simp: py_pos_def Let_def split: if_splits)
  from spawn_ev_fields[OF sp] kl
  have "map current_power_output ((charging_stations s)[k := c']) = map current_power_output (charging_stations s)"
       "map connected_transformer ((charging_stations s)[k := c']) = map connected_transformer (charging_stations s)"
    by (simp_all add: map_update list_update_same_conv)
  with rest cs' show ?thesis
    by (simp add: same_run_def)
qed

lemma same_run_refl: "same_run s s"
  by (simp add: same_run_def)

lemma same_run_trans: "same_run s s1 \<Longrightarrow> same_run s1 s2 \<Longrightarrow> same_run s s2"
  by (simp add: same_run_def)

lemma profile_spawn_Raised:
  "profile_spawn D j ev s = Raised e s' \<Longrightarrow>
     current_step s' = current_step s \<and> done_flag s' = done_flag s \<and>
     (e = IndexError \<or> e = CapacityError)"
  by (auto simp: profile_spawn_def Let_def spawn_ev_def split: option.splits sum.splits)

lemma profile_loop_Returned:
  "profile_loop D j evs s = Returned s' u \<Longrightarrow> same_run s s'"
  by (induction evs arbitrary: j s)
     (auto simp: same_run_refl split: if_splits outcome.splits
        dest!: profile_spawn_Returned intro: same_run_trans)

lemma profile_loop_Raised:
  "profile_loop D j evs s = Raised e s' \<Longrightarrow>
     current_step s' = current_step s \<and> done_flag s' = done_flag s \<and>
     (e = IndexError \<or> e = CapacityError)"
proof (induction evs arbitrary: j s)
  case Nil
  then show ?case by simp
next
  case (Cons ev evs)
  show ?case
  proof (cases "profile_spawn D j ev s")
    case (Raised e1 s1)
    with Cons.prems Cons.IH profile_spawn_Raised[OF Raised] show ?thesis
      by (auto split: if_splits)
  next
    case (Returned s1 u1)
    with Cons.prems Cons.IH profile_spawn_Returned[OF Returned] show ?thesis
      by (auto simp: same_run_def split: if_splits)
  qed
qed

lemma spawn_profiles_Returned: "spawn_profiles D s = Returned s' u \<Longrightarrow> same_run s s'"
  by (auto simp: spawn_profiles_def same_run_def split: option.splits dest: profile_loop_Returned)

lemma spawn_profiles_Raised:
  "spawn_profiles D s = Raised e s' \<Longrightarrow>
     current_step s' = current_step s \<and> done_flag s' = done_flag s \<and>
     (e = IndexError \<or> e = CapacityError)"
  by (auto simp: spawn_profiles_def split: option.splits dest: profile_loop_Raised)

lemma finish_step_Returned:
  assumes "finish_step D s L = Returned s' (obs, r, d)"
  shows "current_step s' = current_step s + 1 \<and> simulation_length s' = simulation_length s \<and>
         r = total_costs L \<and> obs = get_observation D s' \<and>
         d = episode_over (s\<lparr>current_step := current_step s + 1\<rparr>) (user_satisfaction_list L) \<and>
         done_flag s' = (done_flag s \<or> d) \<and> \<not> simulate_grid s \<and>
         transformers s' = transformers s \<and> charging_stations s' = charging_stations s"
  using assms
  by (auto simp: finish_step_def step_date_def calculate_reward_def episode_over_def Let_def
        split: if_splits)

lemma finish_step_Raised:
  "finish_step D s L = Raised e s' \<Longrightarrow>
     e = NotImplementedError \<and> simulate_grid s \<and> current_step s' = current_step s + 1 \<and>
     done_flag s' = done_flag s"
  by (auto simp: finish_step_def step_date_def Let_def split: if_splits)

lemma begin_step_fields:
  "current_step (begin_step s) = current_step s"
  "simulation_length (begin_step s) = simulation_length s"
  "charge_prices (begin_step s) = charge_prices s"
  "discharge_prices (begin_step s) = discharge_prices s"
  "charging_stations (begin_step s) = charging_stations s"
  "done_flag (begin_step s) = done_flag s"
  "ev_profiles (begin_step s) = ev_profiles s"
  "score_threshold (begin_step s) = score_threshold s"
  "generate_rnd_game (begin_step s) = generate_rnd_game s"
  "simulate_grid (begin_step s) = simulate_grid s"
  "save_replay (begin_step s) = save_replay s"
  "empty_ports_at_end_of_simulation (begin_step s) = empty_ports_at_end_of_simulation s"
  "total_evs_spawned (begin_step s) = total_evs_spawned s"
  "EVs (begin_step s) = EVs s"
  "rng (begin_step s) = rng s"
  "transformers (begin_step s) = map (\<lambda>tr. tr\<lparr>current_power := 0\<rparr>) (transformers s)"
  by (simp_all add: begin_step_def)

subsection \<open>A step that returns\<close>

lemma step_Returned:
  assumes "step D s a = Returned s' (obs, r, d)"
  obtains s1 s2 L where
    "\<not> done_flag s"
    "station_loop D a 0 (charging_stations s) locals_init (begin_step s) = Returned s1 L"
    "spawn_profiles D s1 = Returned s2 ()"
    "finish_step D s2 L = Returned s' (obs, r, d)"
  using assms
  by (auto simp: step_def Let_def begin_step_fields split: if_splits outcome.splits)

lemma step_reward_scores:
  assumes "step D s a = Returned s' (obs, r, d)"
  shows "list_all (\<lambda>r. r \<noteq> None) (step_calls D s a) \<and>
         r = sum_list (map call_cost (step_calls D s a)) \<and>
         current_step s' = current_step s + 1 \<and> simulation_length s' = simulation_length s \<and>
         done_flag s' = d \<and>
         d = (current_step s + 1 \<ge> simulation_length s \<or>
              list_ex (\<lambda>score. score < score_threshold s) (concat (map call_scores (step_calls D s a))) \<or>
              (list_ex is_overloaded (transformers s') \<and> \<not> generate_rnd_game s))"
proof -
  from assms obtain s1 s2 L where
    nd: "\<not> done_flag s" and
    lp: "station_loop D a 0 (charging_stations s) locals_init (begin_step s) = Returned s1 L" and
    pr: "spawn_profiles D s1 = Returned s2 ()" and
    fin: "finish_step D s2 L = Returned s' (obs, r, d)"
    by (rule step_Returned)
  note c1 = station_loop_config(1)[OF lp, unfolded same_config_def begin_step_fields]
  note c2 = spawn_profiles_Returned[OF pr, unfolded same_run_def]
  note lc = station_loop_locals[OF lp, unfolded begin_step_fields]
  note f = finish_step_Returned[OF fin]
  have L: "total_costs L = sum_list (map call_cost (step_calls D s a))"
          "user_satisfaction_list L = concat (map call_scores (step_calls D s a))"
          "list_all (\<lambda>r. r \<noteq> None) (step_calls D s a)"
    using lc by (simp_all add: step_calls_def locals_init_def)
  show ?thesis
    using f c1 c2 nd L by (simp add: episode_over_def)
qed

lemma step_Raised_assert:
  "step D s a = Raised AssertionError_episode_done s' \<Longrightarrow> done_flag s"
  by (auto simp: step_def Let_def split: if_splits outcome.splits
        dest: station_loop_config spawn_profiles_Raised finish_step_Raised)

lemma run_steps_bound:
  "run_steps D s as = Some s' \<Longrightarrow>
     int (length as) \<le> max 1 (simulation_length s - current_step s)"
proof (induction as arbitrary: s)
  case Nil
  then show ?case by simp
next
  case (Cons a as)
  from Cons.prems obtain s1 obs r d where
    st: "step D s a = Returned s1 (obs, r, d)" and rs: "run_steps D s1 as = Some s'"
    by (auto split: outcome.splits)
  note f = step_reward_scores[OF st]
  show ?case
  proof (cases as)
    case Nil
    then show ?thesis by simp
  next
    case (Cons b bs)
    with rs have "\<not> done_flag s1"
      by (auto simp: step_def split: outcome.splits if_splits)
    with f have "current_step s + 1 < simulation_length s" by auto
    with Cons.IH[OF rs] f show ?thesis by simp
  qed
qed

subsection \<open>Evaluating the small engine\<close>

lemmas engine_defs =
  step_def begin_step_def locals_init_def station_iteration_def dispatch_station_def
  spawn_random_def spawn_profiles_def profile_spawn_def finish_step_def step_date_def
  calculate_reward_def episode_over_def get_observation_def tr_get_state_def
  Transformer_step_def is_overloaded_def spawn_ev_def EV_init_def n_ports_def
  n_evs_connected_def py_pos_def price_at_def max_stay_of_ev_def
  np_rand_def np_uniform_1_49_def np_randint_7_15_def

lemmas demo_defs =
  mock_externals_def demo_rng_def demo_station_def demo_transformer_def demo_city_def

lemma demo_profile_step:
  "step (mock_externals 3 2 []) (demo_city\<lparr>ev_profiles := Some []\<rparr>) [1] =
     Returned
       (demo_city\<lparr>ev_profiles := Some [],
          transformers := [demo_transformer\<lparr>current_power := 3\<rparr>],
          charging_stations := [demo_station\<lparr>current_power_output := 3\<rparr>],
          current_step := 1, sim_date := 5\<rparr>)
       ([1, 5, 1, 3, 100, 3], 2, False)"
  by (simp add: engine_defs demo_defs Let_def)

lemma demo_random_step:
  "step (mock_externals 3 2 []) demo_city [1] =
     Returned
       (demo_city\<lparr>
          transformers := [demo_transformer\<lparr>current_power := 3\<rparr>],
          charging_stations := [demo_station\<lparr>current_power_output := 3,
             evs_connected := [Some (EV_init None 0 20 1 10)]\<rparr>],
          current_step := 1, sim_date := 5, total_evs_spawned := 1, current_ev_arrived := 1,
          current_evs_parked := 1, EVs := [EV_init None 0 20 1 10], spawn_rate := Some 0.8,
          rng := demo_rng\<lparr>n_calls := 3\<rparr>\<rparr>)
       ([1, 5, 1, 3, 100, 3], 2, False)"
  by (simp add: engine_defs demo_defs Let_def)

lemma demo_run_first:
  "step (mock_externals 3 2 []) (demo_city\<lparr>ev_profiles := Some [], simulation_length := 2\<rparr>) [1] =
     Returned
       (demo_city\<lparr>ev_profiles := Some [], simulation_length := 2,
          transformers := [demo_transformer\<lparr>current_power := 3\<rparr>],
          charging_stations := [demo_station\<lparr>current_power_output := 3\<rparr>],
          current_step := 1, sim_date := 5\<rparr>)
       ([1, 5, 1, 3, 100, 3], 2, False)"
  by (simp add: engine_defs demo_defs Let_def)

lemma demo_run_second:
  "step (mock_externals 3 2 [])
       (demo_city\<lparr>ev_profiles := Some [], simulation_length := 2,
          transformers := [demo_transformer\<lparr>current_power := 3\<rparr>],
          charging_stations := [demo_station\<lparr>current_power_output := 3\<rparr>],
          current_step := 1, sim_date := 5\<rparr>) [1] =
     Returned
       (demo_city\<lparr>ev_profiles := Some [], simulation_length := 2,
          transformers := [demo_transformer\<lparr>current_power := 3\<rparr>],
          charging_stations := [demo_station\<lparr>current_power_output := 3\<rparr>],
          current_step := 2, sim_date := 10, done_flag := True\<rparr>)
       ([2, 5, 1, 3, 100, 3], 2, True)"
  by (simp add: engine_defs demo_defs Let_def)

subsection \<open>Stations and transformers along the loop\<close>

lemma spawn_random_Returned:
  assumes "spawn_random i n c' s = Returned s' u" and "rng_in_range (rng s)"
  shows "\<exists>sp c''. spawn_ok s n c' sp c'' \<and>
           charging_stations s' = (if sp = None then charging_stations s else (charging_stations s)[i := c'']) \<and>
           total_evs_spawned s' = total_evs_spawned s + length (spawned [sp]) \<and>
           EVs s' = EVs s @ (if save_replay s then spawned [sp] else []) \<and>
           rng_in_range (rng s') \<and> 15 \<le> simulation_length s"
proof (cases "charging_stations s' = charging_stations s \<and> total_evs_spawned s' = total_evs_spawned s \<and> EVs s' = EVs s")
  case True
  have "spawn_ok s n c' None c'" by (simp add: spawn_ok_def)
  moreover from assms have "rng_in_range (rng s')" "15 \<le> simulation_length s"
    by (auto simp: spawn_random_def rng_in_range_def Let_def np_rand_def np_uniform_1_49_def
          np_randint_7_15_def max_stay_of_ev_def split: if_splits prod.splits sum.splits)
  ultimately show ?thesis using True
    by (intro exI[of _ None] exI[of _ c']) simp
next
  case False
  with assms obtain c'' where
    g: "\<not> (empty_ports_at_end_of_simulation s \<and>
             current_step s + 1 + max_stay_of_ev \<ge> simulation_length s)" "n > n_evs_connected c'"
       "15 \<le> simulation_length s" and
    sp: "spawn_ev c' (EV_init None (cs_id c') (uniform_seq (rng s) (Suc (n_calls (rng s))))
            (current_step s + 1)
            (current_step s + 1 + randint_seq (rng s) (Suc (Suc (n_calls (rng s)))))) = Inr c''" and
    st: "charging_stations s' = (charging_stations s)[i := c'']"
        "total_evs_spawned s' = total_evs_spawned s + 1"
        "EVs s' = (if save_replay s then EVs s @ [EV_init None (cs_id c') (uniform_seq (rng s) (Suc (n_calls (rng s))))
            (current_step s + 1)
            (current_step s + 1 + randint_seq (rng s) (Suc (Suc (n_calls (rng s)))))] else EVs s)"
        "rng_in_range (rng s')"
    by (auto simp: spawn_random_def rng_in_range_def Let_def np_rand_def np_uniform_1_49_def
          np_randint_7_15_def max_stay_of_ev_def split: if_splits prod.splits sum.splits)
  let ?ev = "EV_init None (cs_id c') (uniform_seq (rng s) (Suc (n_calls (rng s))))
            (current_step s + 1)
            (current_step s + 1 + randint_seq (rng s) (Suc (Suc (n_calls (rng s)))))"
  from assms(2) have "spawn_ok s n c' (Some ?ev) c''"
    using g sp by (simp add: spawn_ok_def EV_init_def rng_in_range_def)
  with st g(3) show ?thesis
    by (intro exI[of _ "Some ?ev"] exI[of _ c'']) simp
qed

lemma spawn_random_stations:
  assumes "spawn_random i n c' s = Returned s' u"
  shows "transformers s' = transformers s \<and>
         empty_ports_at_end_of_simulation s' = empty_ports_at_end_of_simulation s \<and>
         (\<exists>c''. (c'' = c' \<and> charging_stations s' = charging_stations s \<or>
                 (\<exists>ev. spawn_ev c' ev = Inr c'') \<and>
                 charging_stations s' = (charging_stations s)[i := c'']))"
proof (cases "charging_stations s' = charging_stations s")
  case True
  with assms show ?thesis
    by (auto simp: spawn_random_def Let_def split: if_splits prod.splits sum.splits)
next
  case False
  with assms obtain ev c'' where
    "spawn_ev c' ev = Inr c''" "charging_stations s' = (charging_stations s)[i := c'']"
    "transformers s' = transformers s"
    "empty_ports_at_end_of_simulation s' = empty_ports_at_end_of_simulation s"
    by (auto simp: spawn_random_def Let_def split: if_splits prod.splits sum.splits)
  then show ?thesis by blast
qed

lemma station_iteration_stations:
  assumes "station_iteration D a i c L s = Returned s' L'"
  shows "\<exists>c'' k.
           py_pos (length (transformers s)) (connected_transformer c'') = Some k \<and>
           transformers s' =
             (transformers s)[k := Transformer_step (transformers s ! k) (current_power_output c'')] \<and>
           charging_stations s' = (charging_stations s)[i := c'']"
proof -
  from assms obtain s1 c' L1 where
    d: "dispatch_station D a i c L s = Returned s1 (c', L1)" and
    r: "s' = s1 \<or> (\<exists>u. spawn_random i (n_ports c) c' s1 = Returned s' u)"
    by (auto simp: station_iteration_def split: outcome.splits prod.splits if_splits)
  from dispatch_station_Returned[OF d] obtain k where
    k: "py_pos (length (transformers s)) (connected_transformer c') = Some k" and
    tr: "transformers s1 =
           (transformers s)[k := Transformer_step (transformers s ! k) (current_power_output c')]" and
    cs1: "charging_stations s1 = (charging_stations s)[i := c']"
    by blast
  have "\<exists>c''. current_power_output c'' = current_power_output c' \<and>
              connected_transformer c'' = connected_transformer c' \<and>
              transformers s' = transformers s1 \<and>
              charging_stations s' = (charging_stations s)[i := c'']"
    using r
  proof
    assume "s' = s1"
    with cs1 show ?thesis by blast
  next
    assume "\<exists>u. spawn_random i (n_ports c) c' s1 = Returned s' u"
    then obtain u where sp: "spawn_random i (n_ports c) c' s1 = Returned s' u" ..
    from spawn_random_stations[OF sp] obtain c'' where
      t: "transformers s' = transformers s1" and
      c: "c'' = c' \<and> charging_stations s' = charging_stations s1 \<or>
          (\<exists>ev. spawn_ev c' ev = Inr c'') \<and> charging_stations s' = (charging_stations s1)[i := c'']"
      by blast
    from c have f: "current_power_output c'' = current_power_output c' \<and>
                 connected_transformer c'' = connected_transformer c'"
      using spawn_ev_fields by blast
    from c cs1 have "charging_stations s' = (charging_stations s)[i := c'']"
      by auto
    with f t show ?thesis by blast
  qed
  then obtain c'' where
    "current_power_output c'' = current_power_output c'"
    "connected_transformer c'' = connected_transformer c'"
    "transformers s' = transformers s1"
    "charging_stations s' = (charging_stations s)[i := c'']"
    by blast
  with k tr show ?thesis
    by (intro exI[of _ c''] exI[of _ k]) simp
qed

lemma station_loop_take:
  "station_loop D a i rest L s = Returned s' L' \<Longrightarrow>
     take i (charging_stations s') = take i (charging_stations s)"
proof (induction rest arbitrary: i L s)
  case Nil
  then show ?case by simp
next
  case (Cons c rest)
  from Cons.prems obtain s1 L1 where
    it: "station_iteration D a i c L s = Returned s1 L1" and
    lp: "station_loop D a (Suc i) rest L1 s1 = Returned s' L'"
    by (auto split: outcome.splits)
  from station_iteration_stations[OF it] obtain c'' where
    "charging_stations s1 = (charging_stations s)[i := c'']" by blast
  then have "take i (charging_stations s1) = take i (charging_stations s)" by simp
  moreover from Cons.IH[OF lp] have "take i (take (Suc i) (charging_stations s')) = take i (take (Suc i) (charging_stations s1))"
    by simp
  then have "take i (charging_stations s') = take i (charging_stations s1)"
    by (simp add: min_def)
  ultimately show ?case by simp
qed

lemma assigned_power_Cons:
  "assigned_power n k (c # css) =
     (if py_pos n (connected_transformer c) = Some k then current_power_output c else 0)
     + assigned_power n k css"
  by (simp add: assigned_power_def)

lemma station_loop_transformers:
  assumes "station_loop D a i rest L s = Returned s' L'"
    and "i + length rest = length (charging_stations s)"
    and "k < length (transformers s)"
  shows "current_power (transformers s' ! k) =
           current_power (transformers s ! k)
           + assigned_power (length (transformers s)) k (drop i (charging_stations s'))"
  using assms
proof (induction rest arbitrary: i L s)
  case Nil
  from Nil.prems(1) have "s' = s" by simp
  with Nil.prems(2) show ?case by (simp add: assigned_power_def)
next
  case (Cons c rest)
  from Cons.prems(1) obtain s1 L1 where
    it: "station_iteration D a i c L s = Returned s1 L1" and
    lp: "station_loop D a (Suc i) rest L1 s1 = Returned s' L'"
    by (auto split: outcome.splits)
  from station_iteration_stations[OF it] obtain c'' k0 where
    k0: "py_pos (length (transformers s)) (connected_transformer c'') = Some k0" and
    tr: "transformers s1 =
           (transformers s)[k0 := Transformer_step (transformers s ! k0) (current_power_output c'')]" and
    cs1: "charging_stations s1 = (charging_stations s)[i := c'']"
    by blast
  from Cons.prems(2) have il: "i < length (charging_stations s)" by simp
  have len1: "Suc i + length rest = length (charging_stations s1)"
    using Cons.prems(2) cs1 by simp
  have ltr: "length (transformers s1) = length (transformers s)"
    using tr by simp
  have k1: "k < length (transformers s1)"
    using Cons.prems(3) ltr by simp
  note ih = Cons.IH[OF lp len1 k1]
  from station_loop_config(1)[OF lp] have lens: "length (charging_stations s') = length (charging_stations s1)"
    by (simp add: same_config_def)
  from station_loop_take[OF lp] have "take (Suc i) (charging_stations s') ! i = take (Suc i) (charging_stations s1) ! i"
    by simp
  then have nth_i: "charging_stations s' ! i = c''"
    using cs1 il by simp
  have il': "i < length (charging_stations s')"
    using lens cs1 il by simp
  have dr: "drop i (charging_stations s') = c'' # drop (Suc i) (charging_stations s')"
    using Cons_nth_drop_Suc[OF il'] nth_i by simp
  have cur: "current_power (transformers s1 ! k) =
               current_power (transformers s ! k)
               + (if py_pos (length (transformers s)) (connected_transformer c'') = Some k
                  then current_power_output c'' else 0)"
    using tr k0 Cons.prems(3) by (auto simp: Transformer_step_def nth_list_update)
  show ?case
    using ih cur by (simp add: dr assigned_power_Cons ltr)
qed

lemma assigned_power_cong:
  assumes "map current_power_output xs = map current_power_output ys"
    and "map connected_transformer xs = map connected_transformer ys"
  shows "assigned_power n k xs = assigned_power n k ys"
proof -
  from assms(1) have "length xs = length ys" by (rule map_eq_imp_length_eq)
  then show ?thesis using assms
    by (induction xs ys rule: list_induct2) (auto simp: assigned_power_Cons)
qed

lemma step_transformers:
  assumes "step D s a = Returned s' (obs, r, d)" and "k < length (transformers s')"
  shows "length (transformers s') = length (transformers s) \<and>
         current_power (transformers s' ! k) =
           assigned_power (length (transformers s')) k (charging_stations s')"
proof -
  from assms(1) obtain s1 s2 L where
    lp: "station_loop D a 0 (charging_stations s) locals_init (begin_step s) = Returned s1 L" and
    pr: "spawn_profiles D s1 = Returned s2 ()" and
    fin: "finish_step D s2 L = Returned s' (obs, r, d)"
    by (rule step_Returned)
  note c1 = station_loop_config(1)[OF lp, unfolded same_config_def begin_step_fields]
  note c2 = spawn_profiles_Returned[OF pr, unfolded same_run_def]
  note f = finish_step_Returned[OF fin]
  have len: "length (transformers s') = length (transformers s)"
    using f c2 c1 by simp
  have k0: "k < length (transformers (begin_step s))"
    using assms(2) len by (simp add: begin_step_fields)
  have l0: "0 + length (charging_stations s) = length (charging_stations (begin_step s))"
    by (simp add: begin_step_fields)
  from station_loop_transformers[OF lp l0 k0]
  have "current_power (transformers s1 ! k) =
          assigned_power (length (transformers s)) k (charging_stations s1)"
    using assms(2) len by (simp add: begin_step_fields)
  moreover have "assigned_power (length (transformers s)) k (charging_stations s1) =
                 assigned_power (length (transformers s)) k (charging_stations s2)"
    using c2 by (intro assigned_power_cong) simp_all
  ultimately show ?thesis
    using f c2 len by simp
qed

subsection \<open>The random spawn mode along the loop\<close>

lemma spawn_ok_cong:
  "current_step s1 = current_step s \<Longrightarrow> simulation_length s1 = simulation_length s \<Longrightarrow>
   empty_ports_at_end_of_simulation s1 = empty_ports_at_end_of_simulation s \<Longrightarrow>
   spawn_ok s1 n c' sp c'' = spawn_ok s n c' sp c''"
  by (cases sp) (simp_all add: spawn_ok_def)

lemma spawned_append: "spawned (xs @ ys) = spawned xs @ spawned ys"
  by (induction xs rule: spawned.induct) simp_all

lemma station_iteration_random:
  assumes "station_iteration D a i c L s = Returned s' L'"
    and "ev_profiles s = None" and "rng_in_range (rng s)"
  shows "\<exists>c' cost us sp c''.
           call_station D (charge_prices s) (discharge_prices s) (current_step s) a (port_counter L) c
             = Some (c', cost, us) \<and>
           spawn_ok s (n_ports c) c' sp c'' \<and>
           charging_stations s' = (charging_stations s)[i := c''] \<and>
           total_evs_spawned s' = total_evs_spawned s + length (spawned [sp]) \<and>
           EVs s' = EVs s @ (if save_replay s then spawned [sp] else []) \<and>
           rng_in_range (rng s') \<and> 15 \<le> simulation_length s \<and>
           empty_ports_at_end_of_simulation s' = empty_ports_at_end_of_simulation s"
proof -
  from assms(1) obtain s1 c' L1 where
    d: "dispatch_station D a i c L s = Returned s1 (c', L1)"
    by (auto simp: station_iteration_def split: outcome.splits prod.splits if_splits)
  from dispatch_station_Returned[OF d] obtain cost us where
    call: "call_station D (charge_prices s) (discharge_prices s) (current_step s) a (port_counter L) c
             = Some (c', cost, us)" and
    cs1: "charging_stations s1 = (charging_stations s)[i := c']"
    by blast
  from d have fr: "ev_profiles s1 = ev_profiles s" "rng s1 = rng s" "current_step s1 = current_step s"
      "simulation_length s1 = simulation_length s"
      "empty_ports_at_end_of_simulation s1 = empty_ports_at_end_of_simulation s"
      "total_evs_spawned s1 = total_evs_spawned s" "EVs s1 = EVs s" "save_replay s1 = save_replay s"
    by (auto simp: dispatch_station_def Let_def split: option.splits prod.splits)
  from assms(1,2) d fr(1) obtain u where
    sp: "spawn_random i (n_ports c) c' s1 = Returned s' u"
    by (auto simp: station_iteration_def split: outcome.splits)
  from assms(3) fr(2) have "rng_in_range (rng s1)" by simp
  from spawn_random_Returned[OF sp this] obtain sp0 c'' where
    ok: "spawn_ok s1 (n_ports c) c' sp0 c''" and
    cs': "charging_stations s' = (if sp0 = None then charging_stations s1 else (charging_stations s1)[i := c''])" and
    rest: "total_evs_spawned s' = total_evs_spawned s1 + length (spawned [sp0])"
          "EVs s' = EVs s1 @ (if save_replay s1 then spawned [sp0] else [])"
          "rng_in_range (rng s')" "15 \<le> simulation_length s1"
    by blast
  from ok have ok': "spawn_ok s (n_ports c) c' sp0 c''"
    by (simp add: spawn_ok_cong[OF fr(3,4,5)])
  have "charging_stations s' = (charging_stations s)[i := c'']"
  proof (cases sp0)
    case None
    with ok have "c'' = c'" by (simp add: spawn_ok_def)
    with None cs' cs1 show ?thesis by simp
  next
    case (Some ev)
    with cs' cs1 show ?thesis by simp
  qed
  moreover from spawn_random_stations[OF sp] fr(5)
  have "empty_ports_at_end_of_simulation s' = empty_ports_at_end_of_simulation s" by simp
  ultimately show ?thesis
    using call ok' rest fr by (intro exI[of _ c'] exI[of _ cost] exI[of _ us] exI[of _ sp0] exI[of _ c'']) simp
qed

lemma station_loop_random:
  assumes "station_loop D a i rest L s = Returned s' L'"
    and "ev_profiles s = None" and "rng_in_range (rng s)"
    and "i + length rest = length (charging_stations s)"
  shows "\<exists>sps. length sps = length rest \<and>
           (\<forall>j<length rest. \<exists>c' cost us.
              station_calls D (charge_prices s) (discharge_prices s) (current_step s) a
                (port_counter L) rest ! j = Some (c', cost, us) \<and>
              spawn_ok s (n_ports (rest ! j)) c' (sps ! j) (charging_stations s' ! (i + j))) \<and>
           total_evs_spawned s' = total_evs_spawned s + length (spawned sps) \<and>
           EVs s' = EVs s @ (if save_replay s then spawned sps else [])"
  using assms
proof (induction rest arbitrary: i L s)
  case Nil
  then show ?case by simp
next
  case (Cons c rest)
  from Cons.prems(1) obtain s1 L1 where
    it: "station_iteration D a i c L s = Returned s1 L1" and
    lp: "station_loop D a (Suc i) rest L1 s1 = Returned s' L'"
    by (auto split: outcome.splits)
  from station_iteration_random[OF it Cons.prems(2,3)] obtain c' cost us sp c'' where
    call: "call_station D (charge_prices s) (discharge_prices s) (current_step s) a (port_counter L) c
             = Some (c', cost, us)" and
    ok: "spawn_ok s (n_ports c) c' sp c''" and
    cs1: "charging_stations s1 = (charging_stations s)[i := c'']" and
    tot1: "total_evs_spawned s1 = total_evs_spawned s + length (spawned [sp])" and
    evs1: "EVs s1 = EVs s @ (if save_replay s then spawned [sp] else [])" and
    rng1: "rng_in_range (rng s1)" and
    emp1: "empty_ports_at_end_of_simulation s1 = empty_ports_at_end_of_simulation s"
    by blast
  note cfg = station_iteration_config(1)[OF it, unfolded same_config_def]
  from station_iteration_locals[OF it] have pc1: "port_counter L1 = port_counter L + n_ports c"
    by blast
  have prof1: "ev_profiles s1 = None" using cfg Cons.prems(2) by simp
  have len1: "Suc i + length rest = length (charging_stations s1)"
    using Cons.prems(4) cs1 by simp
  from Cons.IH[OF lp prof1 rng1 len1] obtain sps where
    l: "length sps = length rest" and
    each: "\<forall>j<length rest. \<exists>c' cost us.
              station_calls D (charge_prices s1) (discharge_prices s1) (current_step s1) a
                (port_counter L1) rest ! j = Some (c', cost, us) \<and>
              spawn_ok s1 (n_ports (rest ! j)) c' (sps ! j) (charging_stations s' ! (Suc i + j))" and
    tot: "total_evs_spawned s' = total_evs_spawned s1 + length (spawned sps)" and
    evs: "EVs s' = EVs s1 @ (if save_replay s1 then spawned sps else [])"
    by blast
  from Cons.prems(4) have il: "i < length (charging_stations s)" by simp
  from station_loop_take[OF lp]
  have "take (Suc i) (charging_stations s') ! i = take (Suc i) (charging_stations s1) ! i"
    by simp
  then have nth_i: "charging_stations s' ! i = c''"
    using cs1 il by simp
  have sok: "\<And>n x sp0 y. spawn_ok s1 n x sp0 y = spawn_ok s n x sp0 y"
    using cfg emp1 by (intro spawn_ok_cong) simp_all
  have "\<forall>j<length (c # rest). \<exists>c' cost us.
              station_calls D (charge_prices s) (discharge_prices s) (current_step s) a
                (port_counter L) (c # rest) ! j = Some (c', cost, us) \<and>
              spawn_ok s (n_ports ((c # rest) ! j)) c' ((sp # sps) ! j) (charging_stations s' ! (i + j))"
  proof (intro allI impI)
    fix j assume j: "j < length (c # rest)"
    show "\<exists>c' cost us.
              station_calls D (charge_prices s) (discharge_prices s) (current_step s) a
                (port_counter L) (c # rest) ! j = Some (c', cost, us) \<and>
              spawn_ok s (n_ports ((c # rest) ! j)) c' ((sp # sps) ! j) (charging_stations s' ! (i + j))"
    proof (cases j)
      case 0
      with call ok nth_i show ?thesis by simp
    next
      case (Suc j')
      with j have "j' < length rest" by simp
      with each obtain x cost' us' where
        "station_calls D (charge_prices s1) (discharge_prices s1) (current_step s1) a
                (port_counter L1) rest ! j' = Some (x, cost', us')"
        "spawn_ok s1 (n_ports (rest ! j')) x (sps ! j') (charging_stations s' ! (Suc i + j'))"
        by blast
      with Suc cfg pc1 sok show ?thesis by simp
    qed
  qed
  moreover have "total_evs_spawned s' = total_evs_spawned s + length (spawned (sp # sps))"
    using tot tot1 spawned_append[of "[sp]" sps] by simp
  moreover have "EVs s' = EVs s @ (if save_replay s then spawned (sp # sps) else [])"
    using evs evs1 cfg spawned_append[of "[sp]" sps] by simp
  ultimately show ?case
    using l by (intro exI[of _ "sp # sps"]) simp
qed

lemma step_random_spawns:
  assumes "step D s a = Returned s' (obs, r, d)"
    and "ev_profiles s = None" and "rng_in_range (rng s)"
  shows "\<exists>sps. length sps = length (charging_stations s) \<and>
           (\<forall>j<length (charging_stations s). \<exists>c' cost us.
              step_calls D s a ! j = Some (c', cost, us) \<and>
              spawn_ok s (n_ports (charging_stations s ! j)) c' (sps ! j) (charging_stations s' ! j)) \<and>
           total_evs_spawned s' = total_evs_spawned s + length (spawned sps) \<and>
           EVs s' = EVs s @ (if save_replay s then spawned sps else [])"
proof -
  from assms(1) obtain s1 s2 L where
    lp: "station_loop D a 0 (charging_stations s) locals_init (begin_step s) = Returned s1 L" and
    pr: "spawn_profiles D s1 = Returned s2 ()" and
    fin: "finish_step D s2 L = Returned s' (obs, r, d)"
    by (rule step_Returned)
  note c1 = station_loop_config(1)[OF lp, unfolded same_config_def begin_step_fields]
  from c1 assms(2) pr have s2: "s2 = s1"
    by (simp add: spawn_profiles_def)
  have fs: "charging_stations s' = charging_stations s1" "total_evs_spawned s' = total_evs_spawned s1"
    "EVs s' = EVs s1"
    using fin s2 by (auto simp: finish_step_def step_date_def Let_def split: if_splits)
  have p: "ev_profiles (begin_step s) = None" "rng_in_range (rng (begin_step s))"
    "0 + length (charging_stations s) = length (charging_stations (begin_step s))"
    using assms(2,3) by (simp_all add: begin_step_fields)
  have sok: "\<And>n x sp0 y. spawn_ok (begin_step s) n x sp0 y = spawn_ok s n x sp0 y"
    by (intro spawn_ok_cong) (simp_all add: begin_step_fields)
  from station_loop_random[OF lp p]
  show ?thesis
    by (simp add: begin_step_fields step_calls_def locals_init_def fs sok)
qed

subsection \<open>Short action vectors\<close>



subsection \<open>The configuration error of the random spawn mode\<close>

lemma dispatch_station_call:
  assumes "call_station D (charge_prices s) (discharge_prices s) (current_step s) a (port_counter L) c
             = Some (c', cost, us)"
    and "py_pos (length (transformers s)) (connected_transformer c') = Some k"
  shows "dispatch_station D a i c L s =
           Returned
             (s\<lparr>charging_stations := (charging_stations s)[i := c'],
                transformers :=
                  (transformers s)[k := Transformer_step (transformers s ! k) (current_power_output c')],
                current_ev_departed := current_ev_departed s + length us\<rparr>)
             (c', \<lparr>total_costs = total_costs L + cost,
                   user_satisfaction_list = user_satisfaction_list L @ us,
                   port_counter = port_counter L + n_ports c\<rparr>)"
  using assms
  by (auto simp: dispatch_station_def call_station_def Let_def split: option.splits)

lemma station_iteration_max_stay:
  assumes "station_iteration D a i c L s = Raised ValueError_max_stay s'"
  shows "ev_profiles s = None \<and> simulation_length s < max_stay_of_ev \<and>
         (\<exists>c' cost us k.
            call_station D (charge_prices s) (discharge_prices s) (current_step s) a (port_counter L) c
              = Some (c', cost, us) \<and>
            py_pos (length (transformers s)) (connected_transformer c') = Some k \<and>
            s' = s\<lparr>charging_stations := (charging_stations s)[i := c'],
                   transformers :=
                     (transformers s)[k := Transformer_step (transformers s ! k) (current_power_output c')],
                   current_ev_departed := current_ev_departed s + length us,
                   empty_ports_at_end_of_simulation := False\<rparr>)"
proof -
  have nd: "\<And>e s1. dispatch_station D a i c L s = Raised e s1 \<Longrightarrow> e \<noteq> ValueError_max_stay"
    by (auto simp: dispatch_station_def Let_def split: option.splits prod.splits)
  from assms nd obtain s1 c' L1 where
    d: "dispatch_station D a i c L s = Returned s1 (c', L1)" and
    p: "ev_profiles s1 = None" and
    sp: "spawn_random i (n_ports c) c' s1 = Raised ValueError_max_stay s'"
    by (auto simp: station_iteration_def split: outcome.splits prod.splits if_splits)
  from sp have m: "simulation_length s1 < max_stay_of_ev"
    and s': "s' = s1\<lparr>empty_ports_at_end_of_simulation := False\<rparr>"
    by (auto simp: spawn_random_def spawn_ev_def Let_def split: if_splits prod.splits sum.splits option.splits)
  from dispatch_station_Returned[OF d] obtain cost us k where
    call: "call_station D (charge_prices s) (discharge_prices s) (current_step s) a (port_counter L) c
             = Some (c', cost, us)" and
    k: "py_pos (length (transformers s)) (connected_transformer c') = Some k"
    by blast
  from d dispatch_station_call[OF call k, of i] have
    s1: "s1 = s\<lparr>charging_stations := (charging_stations s)[i := c'],
                transformers :=
                  (transformers s)[k := Transformer_step (transformers s ! k) (current_power_output c')],
                current_ev_departed := current_ev_departed s + length us\<rparr>"
    by simp
  from dispatch_station_config(1)[OF d] p m have "ev_profiles s = None" "simulation_length s < max_stay_of_ev"
    by (simp_all add: same_config_def)
  with call k s' s1 show ?thesis by blast
qed

lemma station_iteration_no_max_stay:
  assumes "station_iteration D a i c L s = Returned s' L'"
  shows "ev_profiles s \<noteq> None \<or> max_stay_of_ev \<le> simulation_length s"
proof -
  from assms obtain s1 c' L1 where
    d: "dispatch_station D a i c L s = Returned s1 (c', L1)" and
    r: "ev_profiles s1 \<noteq> None \<or> (\<exists>u. spawn_random i (n_ports c) c' s1 = Returned s' u)"
    by (auto simp: station_iteration_def split: outcome.splits prod.splits if_splits)
  from r have "ev_profiles s1 \<noteq> None \<or> max_stay_of_ev \<le> simulation_length s1"
    by (auto simp: spawn_random_def split: if_splits)
  with dispatch_station_config(1)[OF d] show ?thesis
    by (simp add: same_config_def)
qed

lemma station_loop_no_max_stay:
  assumes "ev_profiles s \<noteq> None \<or> max_stay_of_ev \<le> simulation_length s"
  shows "station_loop D a i rest L s \<noteq> Raised ValueError_max_stay s'"
  using assms
proof (induction rest arbitrary: i L s)
  case Nil
  then show ?case by simp
next
  case (Cons c rest)
  show ?case
  proof (cases "station_iteration D a i c L s")
    case (Raised e s1)
    with station_iteration_max_stay[of D a i c L s s1] Cons.prems show ?thesis
      by auto
  next
    case (Returned s1 L1)
    from station_iteration_config(1)[OF Returned] Cons.prems
    have "ev_profiles s1 \<noteq> None \<or> max_stay_of_ev \<le> simulation_length s1"
      by (simp add: same_config_def)
    from Cons.IH[OF this] Returned show ?thesis by simp
  qed
qed

lemma step_max_stay:
  assumes "step D s a = Raised ValueError_max_stay s'"
  obtains c rest where
    "\<not> done_flag s" "charging_stations s = c # rest"
    "station_iteration D a 0 c locals_init (begin_step s) = Raised ValueError_max_stay s'"
proof -
  from assms have nd: "\<not> done_flag s"
    by (auto simp: step_def split: if_splits)
  from assms nd have
    lp: "station_loop D a 0 (charging_stations s) locals_init (begin_step s) = Raised ValueError_max_stay s'"
    by (auto simp: step_def Let_def begin_step_fields split: outcome.splits
          dest: spawn_profiles_Raised finish_step_Raised)
  then obtain c rest where cs: "charging_stations s = c # rest"
    by (cases "charging_stations s") auto
  have "station_iteration D a 0 c locals_init (begin_step s) = Raised ValueError_max_stay s'"
  proof (cases "station_iteration D a 0 c locals_init (begin_step s)")
    case (Raised e s1)
    with lp cs show ?thesis by simp
  next
    case (Returned s1 L1)
    from station_iteration_no_max_stay[OF Returned] station_iteration_config(1)[OF Returned]
    have "ev_profiles s1 \<noteq> None \<or> max_stay_of_ev \<le> simulation_length s1"
      by (simp add: same_config_def)
    from station_loop_no_max_stay[OF this] Returned lp cs show ?thesis by simp
  qed
  with nd cs show ?thesis by (rule that)
qed

subsection \<open>The capacity error\<close>

lemma first_free_Some:
  "length (filter (\<lambda>p. p \<noteq> None) ps) < length ps \<Longrightarrow> first_free ps \<noteq> None"
  by (induction ps rule: first_free.induct) auto

lemma spawn_random_no_capacity_error:
  "n \<le> n_ports c' \<Longrightarrow> spawn_random i n c' s \<noteq> Raised CapacityError s'"
  using first_free_Some[of "evs_connected c'"]
  by (auto simp: spawn_random_def spawn_ev_def n_ports_def n_evs_connected_def Let_def
        split: if_splits prod.splits sum.splits option.splits)

lemma station_iteration_no_capacity_error:
  assumes "ports_fixed D"
  shows "station_iteration D a i c L s \<noteq> Raised CapacityError s'"
proof
  assume r: "station_iteration D a i c L s = Raised CapacityError s'"
  have nd: "\<And>e s1. dispatch_station D a i c L s = Raised e s1 \<Longrightarrow> e \<noteq> CapacityError"
    by (auto simp: dispatch_station_def Let_def split: option.splits prod.splits)
  from r nd obtain s1 c' L1 where
    d: "dispatch_station D a i c L s = Returned s1 (c', L1)" and
    sp: "spawn_random i (n_ports c) c' s1 = Raised CapacityError s'"
    by (auto simp: station_iteration_def split: outcome.splits prod.splits if_splits)
  from dispatch_station_Returned[OF d] obtain cost us where
    "call_station D (charge_prices s) (discharge_prices s) (current_step s) a (port_counter L) c
       = Some (c', cost, us)" by blast
  then obtain xs cp dp where "cs_step D c xs cp dp = Some (c', cost, us)"
    by (auto simp: call_station_def split: option.splits)
  with assms have "n_ports c' = n_ports c"
    unfolding ports_fixed_def by (metis (mono_tags, lifting) case_prod_conv option.simps(5))
  with sp spawn_random_no_capacity_error[of "n_ports c" c' i s1 s'] show False by simp
qed

lemma station_loop_no_capacity_error:
  assumes "ports_fixed D"
  shows "station_loop D a i rest L s \<noteq> Raised CapacityError s'"
proof (induction rest arbitrary: i L s)
  case Nil
  then show ?case by simp
next
  case (Cons c rest)
  with station_iteration_no_capacity_error[OF assms] show ?case
    by (auto split: outcome.splits)
qed

lemma step_random_no_capacity_error:
  assumes "ports_fixed D" and "ev_profiles s = None"
  shows "step D s a \<noteq> Raised CapacityError s'"
proof
  assume r: "step D s a = Raised CapacityError s'"
  then have nd: "\<not> done_flag s" by (auto simp: step_def split: if_splits)
  show False
  proof (cases "station_loop D a 0 (charging_stations s) locals_init (begin_step s)")
    case (Raised e s1)
    with r nd station_loop_no_capacity_error[OF assms(1)] show False
      by (auto simp: step_def Let_def begin_step_fields)
  next
    case (Returned s1 L)
    from station_loop_config(1)[OF Returned] assms(2) have "ev_profiles s1 = None"
      by (simp add: same_config_def begin_step_fields)
    with r nd Returned show False
      by (auto simp: step_def Let_def begin_step_fields spawn_profiles_def
            dest: finish_step_Raised)
  qed
qed

lemma spawned_all_None: "set sps \<subseteq> {None} \<Longrightarrow> spawned sps = []"
  by (induction sps rule: spawned.induct) auto

subsection \<open>More evaluations of the small engine\<close>

lemmas demo_defs2 = demo_defs demo_city2_def demo_ev0_def demo_ev1_def demo_full_city_def
  demo_finished_city_def

lemma demo_capacity_step:
  "step (mock_externals 3 2 []) demo_full_city [1] =
     Raised CapacityError
       (demo_full_city\<lparr>
          transformers := [demo_transformer\<lparr>current_power := 3\<rparr>],
          charging_stations :=
            [demo_station\<lparr>evs_connected := [Some demo_ev0], current_power_output := 3\<rparr>]\<rparr>)"
  by (simp add: engine_defs demo_defs2 Let_def)


lemma demo_reset:
  "reset (mock_externals 3 2 []) demo_finished_city =
     (demo_city\<lparr>done_flag := True\<rparr>, [0, 5, 1, 0, 100, 0])"
  by (simp add: reset_def cs_reset_def engine_defs demo_defs2 Let_def)

section \<open>Claims\<close>

text \<open>
  C1. The bound on the episode fails for a simulation length below one: the termination
  check comes after the increment of the step counter, so the first call of \<^verbatim>\<open>step\<close>
  returns, with the done flag set, also when the simulation length is zero (an engine in
  the profile mode with no profile, prices for twenty steps): an episode of one step,
  longer than the simulation length.
\<close>

theorem episode_longer_than_zero_length_counterexample:
  "current_step (demo_city\<lparr>ev_profiles := Some [], simulation_length := 0\<rparr>) = 0 \<and>
   \<not> done_flag (demo_city\<lparr>ev_profiles := Some [], simulation_length := 0\<rparr>) \<and>
   step (mock_externals 3 2 []) (demo_city\<lparr>ev_profiles := Some [], simulation_length := 0\<rparr>) [1] =
     Returned
       (demo_city\<lparr>ev_profiles := Some [], simulation_length := 0,
          transformers := [demo_transformer\<lparr>current_power := 3\<rparr>],
          charging_stations := [demo_station\<lparr>current_power_output := 3\<rparr>],
          current_step := 1, sim_date := 5, done_flag := True\<rparr>)
       ([1, 5, 1, 3, 100, 3], 2, True) \<and>
   run_steps (mock_externals 3 2 []) (demo_city\<lparr>ev_profiles := Some [], simulation_length := 0\<rparr>) [[1]] =
     Some (demo_city\<lparr>ev_profiles := Some [], simulation_length := 0,
          transformers := [demo_transformer\<lparr>current_power := 3\<rparr>],
          charging_stations := [demo_station\<lparr>current_power_output := 3\<rparr>],
          current_step := 1, sim_date := 5, done_flag := True\<rparr>) \<and>
   simulation_length (demo_city\<lparr>ev_profiles := Some [], simulation_length := 0\<rparr>)
     < int (length [[1::real]])"
proof -
  have st: "step (mock_externals 3 2 []) (demo_city\<lparr>ev_profiles := Some [], simulation_length := 0\<rparr>) [1] =
     Returned
       (demo_city\<lparr>ev_profiles := Some [], simulation_length := 0,
          transformers := [demo_transformer\<lparr>current_power := 3\<rparr>],
          charging_stations := [demo_station\<lparr>current_power_output := 3\<rparr>],
          current_step := 1, sim_date := 5, done_flag := True\<rparr>)
       ([1, 5, 1, 3, 100, 3], 2, True)"
    by (simp add: engine_defs demo_defs Let_def)
  then show ?thesis
    by (simp add: demo_city_def)
qed

text \<open>
  C1, amended. A call of \<^verbatim>\<open>step\<close> that returns has advanced the step counter by one,
  and the done flag it returns (and stores) is true if and only if the advanced counter
  has reached the simulation length, or a satisfaction score that a station returned in
  this step is below the score threshold, or a transformer is overloaded at the end of the
  step while the random-game mode is off. Hence an episode, the calls of \<^verbatim>\<open>step\<close> that
  return one after the other from step counter zero on, has at most
  \<open>max 1 simulation_length\<close> steps: at most \<open>simulation_length\<close> steps whenever the
  simulation length is at least one.
\<close>

theorem step_done_iff_and_episode_bound:
  "(step D s a = Returned s' (obs, r, d) \<longrightarrow>
      current_step s' = current_step s + 1 \<and> done_flag s' = d \<and>
      d = (current_step s + 1 \<ge> simulation_length s \<or>
           list_ex (\<lambda>score. score < score_threshold s)
             (concat (map call_scores (step_calls D s a))) \<or>
           (list_ex is_overloaded (transformers s') \<and> \<not> generate_rnd_game s))) \<and>
   (current_step s0 = 0 \<and> run_steps D s0 as = Some s1 \<longrightarrow>
      int (length as) \<le> max 1 (simulation_length s0) \<and>
      (1 \<le> simulation_length s0 \<longrightarrow> int (length as) \<le> simulation_length s0))"
proof (intro conjI impI)
  assume st: "step D s a = Returned s' (obs, r, d)"
  from step_reward_scores[OF st]
  show "current_step s' = current_step s + 1" and "done_flag s' = d"
    and "d = (current_step s + 1 \<ge> simulation_length s \<or>
           list_ex (\<lambda>score. score < score_threshold s)
             (concat (map call_scores (step_calls D s a))) \<or>
           (list_ex is_overloaded (transformers s') \<and> \<not> generate_rnd_game s))"
    by blast+
next
  assume run: "current_step s0 = 0 \<and> run_steps D s0 as = Some s1"
  then have "int (length as) \<le> max 1 (simulation_length s0 - current_step s0)"
    using run_steps_bound by blast
  with run show b: "int (length as) \<le> max 1 (simulation_length s0)"
    by simp
  assume "1 \<le> simulation_length s0"
  with b show "int (length as) \<le> simulation_length s0"
    by simp
qed

theorem step_done_iff_and_episode_bound_witness:
  "step (mock_externals 3 2 []) (demo_city\<lparr>ev_profiles := Some [], simulation_length := 2\<rparr>) [1] =
     Returned
       (demo_city\<lparr>ev_profiles := Some [], simulation_length := 2,
          transformers := [demo_transformer\<lparr>current_power := 3\<rparr>],
          charging_stations := [demo_station\<lparr>current_power_output := 3\<rparr>],
          current_step := 1, sim_date := 5\<rparr>)
       ([1, 5, 1, 3, 100, 3], 2, False) \<and>
   current_step (demo_city\<lparr>ev_profiles := Some [], simulation_length := 2\<rparr>) = 0 \<and>
   run_steps (mock_externals 3 2 []) (demo_city\<lparr>ev_profiles := Some [], simulation_length := 2\<rparr>)
       [[1], [1]] =
     Some (demo_city\<lparr>ev_profiles := Some [], simulation_length := 2,
          transformers := [demo_transformer\<lparr>current_power := 3\<rparr>],
          charging_stations := [demo_station\<lparr>current_power_output := 3\<rparr>],
          current_step := 2, sim_date := 10, done_flag := True\<rparr>) \<and>
   1 \<le> simulation_length (demo_city\<lparr>ev_profiles := Some [], simulation_length := 2\<rparr>) \<and>
   int (length [[1::real], [1]]) \<le> simulation_length (demo_city\<lparr>ev_profiles := Some [], simulation_length := 2\<rparr>)"
proof -
  let ?D = "mock_externals 3 2 []"
  let ?s0 = "demo_city\<lparr>ev_profiles := Some [], simulation_length := 2\<rparr>"
  let ?s1 = "demo_city\<lparr>ev_profiles := Some [], simulation_length := 2,
          transformers := [demo_transformer\<lparr>current_power := 3\<rparr>],
          charging_stations := [demo_station\<lparr>current_power_output := 3\<rparr>],
          current_step := 1, sim_date := 5\<rparr>"
  let ?s2 = "demo_city\<lparr>ev_profiles := Some [], simulation_length := 2,
          transformers := [demo_transformer\<lparr>current_power := 3\<rparr>],
          charging_stations := [demo_station\<lparr>current_power_output := 3\<rparr>],
          current_step := 2, sim_date := 10, done_flag := True\<rparr>"
  have run: "run_steps ?D ?s0 [[1], [1]] = Some ?s2"
    by (simp add: demo_run_first demo_run_second)
  have c0: "current_step ?s0 = 0" and l: "1 \<le> simulation_length ?s0"
    by (simp_all add: demo_city_def)
  from step_done_iff_and_episode_bound
         [of ?D ?s0 "[1]" ?s1 "[1, 5, 1, 3, 100, 3]" 2 False ?s0 "[[1], [1]]" ?s2]
       demo_run_first run c0 l
  show ?thesis by simp
qed




text \<open>
  C3. \<^verbatim>\<open>reset\<close> zeroes the step counter, resets every station and returns the observation,
  but it does not touch \<^verbatim>\<open>self.done\<close>: after an episode has finished, the engine is still
  done after \<^verbatim>\<open>reset\<close>, and the next \<^verbatim>\<open>step\<close> fails on the assertion whose message asks
  for that very reset.
\<close>

theorem reset_leaves_done_flag:
  "done_flag demo_finished_city \<and>
   reset (mock_externals 3 2 []) demo_finished_city =
     (demo_city\<lparr>done_flag := True\<rparr>, [0, 5, 1, 0, 100, 0]) \<and>
   current_step (fst (reset (mock_externals 3 2 []) demo_finished_city)) = 0 \<and>
   charging_stations (fst (reset (mock_externals 3 2 []) demo_finished_city)) =
     map cs_reset (charging_stations demo_finished_city) \<and>
   done_flag (fst (reset (mock_externals 3 2 []) demo_finished_city)) \<and>
   step (mock_externals 3 2 []) (fst (reset (mock_externals 3 2 []) demo_finished_city)) [1] =
     Raised AssertionError_episode_done (demo_city\<lparr>done_flag := True\<rparr>)"
  by (simp add: demo_reset step_def) (simp add: demo_defs2 cs_reset_def n_ports_def)

text \<open>
  C4. After a call of \<^verbatim>\<open>step\<close> that returns, the current power of the transformer at
  position \<open>k\<close> is the sum of the \<open>current_power_output\<close> of exactly the stations whose
  \<open>connected_transformer\<close> is \<open>k\<close> (as a Python index into the list of transformers), as
  the stations are at the end of the step, whatever the transformer's current power was
  before the call: \<^verbatim>\<open>step\<close> zeroes every accumulator before the first station reports.
\<close>

theorem transformer_power_is_sum_of_assigned_stations:
  assumes "step D s a = Returned s' (obs, r, d)" and "k < length (transformers s')"
  shows "current_power (transformers s' ! k) =
           sum_list (map current_power_output
             (filter (\<lambda>c. py_pos (length (transformers s')) (connected_transformer c) = Some k)
                (charging_stations s'))) \<and>
         current_power (transformers s' ! k) =
           assigned_power (length (transformers s')) k (charging_stations s')"
  using step_transformers[OF assms] by (simp add: assigned_power_def)

theorem transformer_power_is_sum_of_assigned_stations_witness:
  "step (mock_externals 3 2 [])
     (demo_city\<lparr>ev_profiles := Some [], transformers := [demo_transformer\<lparr>current_power := 50\<rparr>]\<rparr>) [1] =
     Returned
       (demo_city\<lparr>ev_profiles := Some [],
          transformers := [demo_transformer\<lparr>current_power := 3\<rparr>],
          charging_stations := [demo_station\<lparr>current_power_output := 3\<rparr>],
          current_step := 1, sim_date := 5\<rparr>)
       ([1, 5, 1, 3, 100, 3], 2, False) \<and>
   (0::nat) < length [demo_transformer\<lparr>current_power := 3\<rparr>] \<and>
   assigned_power 1 0 [demo_station\<lparr>current_power_output := 3\<rparr>] = 3"
proof -
  have h1: "step (mock_externals 3 2 [])
     (demo_city\<lparr>ev_profiles := Some [], transformers := [demo_transformer\<lparr>current_power := 50\<rparr>]\<rparr>) [1] =
     Returned
       (demo_city\<lparr>ev_profiles := Some [],
          transformers := [demo_transformer\<lparr>current_power := 3\<rparr>],
          charging_stations := [demo_station\<lparr>current_power_output := 3\<rparr>],
          current_step := 1, sim_date := 5\<rparr>)
       ([1, 5, 1, 3, 100, 3], 2, False)"
    by (simp add: engine_defs demo_defs Let_def)
  have h2: "0 < length (transformers (demo_city\<lparr>ev_profiles := Some [],
          transformers := [demo_transformer\<lparr>current_power := 3\<rparr>],
          charging_stations := [demo_station\<lparr>current_power_output := 3\<rparr>],
          current_step := 1, sim_date := 5\<rparr>))"
    by simp
  from transformer_power_is_sum_of_assigned_stations[OF h1 h2] h1 show ?thesis
    by simp
qed

text \<open>
  C5. \<^verbatim>\<open>_calculate_reward\<close> returns its \<open>total_costs\<close> argument whatever the satisfaction
  list is, and the reward of a call of \<^verbatim>\<open>step\<close> that returns (the grid is then not
  simulated) is the sum of the costs that the stations returned in that step: every
  station was called and returned.
\<close>

theorem step_reward_is_total_cost:
  "calculate_reward tc scores = tc \<and>
   (step D s a = Returned s' (obs, r, d) \<longrightarrow>
      \<not> simulate_grid s \<and>
      list_all (\<lambda>call. call \<noteq> None) (step_calls D s a) \<and>
      r = sum_list (map call_cost (step_calls D s a)))"
proof (intro conjI impI)
  show "calculate_reward tc scores = tc"
    by (simp add: calculate_reward_def)
next
  assume st: "step D s a = Returned s' (obs, r, d)"
  from step_reward_scores[OF st]
  show "list_all (\<lambda>call. call \<noteq> None) (step_calls D s a)"
    and "r = sum_list (map call_cost (step_calls D s a))"
    by blast+
  from st obtain s1 s2 L where
    lp: "station_loop D a 0 (charging_stations s) locals_init (begin_step s) = Returned s1 L" and
    pr: "spawn_profiles D s1 = Returned s2 ()" and
    fin: "finish_step D s2 L = Returned s' (obs, r, d)"
    by (rule step_Returned)
  from finish_step_Returned[OF fin] spawn_profiles_Returned[OF pr] station_loop_config(1)[OF lp]
  show "\<not> simulate_grid s"
    by (simp add: same_run_def same_config_def begin_step_fields)
qed

theorem step_reward_is_total_cost_witness:
  "step (mock_externals 3 2 []) (demo_city\<lparr>ev_profiles := Some []\<rparr>) [1] =
     Returned
       (demo_city\<lparr>ev_profiles := Some [],
          transformers := [demo_transformer\<lparr>current_power := 3\<rparr>],
          charging_stations := [demo_station\<lparr>current_power_output := 3\<rparr>],
          current_step := 1, sim_date := 5\<rparr>)
       ([1, 5, 1, 3, 100, 3], 2, False) \<and>
   sum_list (map call_cost (step_calls (mock_externals 3 2 []) (demo_city\<lparr>ev_profiles := Some []\<rparr>) [1]))
     = 2"
  using step_reward_is_total_cost
    [of 0 "[]" "mock_externals 3 2 []" "demo_city\<lparr>ev_profiles := Some []\<rparr>" "[1]"
        "demo_city\<lparr>ev_profiles := Some [],
          transformers := [demo_transformer\<lparr>current_power := 3\<rparr>],
          charging_stations := [demo_station\<lparr>current_power_output := 3\<rparr>],
          current_step := 1, sim_date := 5\<rparr>"
        "[1, 5, 1, 3, 100, 3]" 2 False]
    demo_profile_step
  by simp

text \<open>
  C6. When the done flag is set, \<^verbatim>\<open>step\<close> fails on its first statement, the assertion
  "Episode is done, please reset the environment", and leaves the state as it found it;
  and that assertion fails only when the done flag is set.
\<close>

theorem step_when_done:
  "(done_flag s \<longrightarrow> step D s a = Raised AssertionError_episode_done s) \<and>
   (step D s a = Raised AssertionError_episode_done s' \<longrightarrow> done_flag s \<and> s' = s)"
proof (intro conjI impI)
  assume "done_flag s"
  then show "step D s a = Raised AssertionError_episode_done s"
    by (simp add: step_def)
next
  assume r: "step D s a = Raised AssertionError_episode_done s'"
  then show "done_flag s" by (rule step_Raised_assert)
  with r show "s' = s" by (simp add: step_def)
qed

theorem step_when_done_witness:
  "done_flag (demo_city\<lparr>done_flag := True\<rparr>) \<and>
   step (mock_externals 3 2 []) (demo_city\<lparr>done_flag := True\<rparr>) [1] =
     Raised AssertionError_episode_done (demo_city\<lparr>done_flag := True\<rparr>)"
  using step_when_done [of "demo_city\<lparr>done_flag := True\<rparr>" "mock_externals 3 2 []" "[1]"
      "demo_city\<lparr>done_flag := True\<rparr>"]
  by simp

text \<open>
  C7. In the profile spawn mode the engine calls \<^verbatim>\<open>spawn_ev\<close> without looking at the
  station's free ports (lines 302 to 304); the random spawn mode does look (line 274).
  One station with one port, occupied by an EV that arrived at step 1; at step counter 1
  the next profile arrives at step 2 at the same station: \<^verbatim>\<open>step\<close> hands it to the full
  station, and the capacity error is raised.
\<close>

theorem profile_spawn_into_full_station:
  "ev_profiles demo_full_city = Some [demo_ev0, demo_ev1] \<and>
   n_evs_connected (charging_stations demo_full_city ! 0) =
     n_ports (charging_stations demo_full_city ! 0) \<and>
   step (mock_externals 3 2 []) demo_full_city [1] =
     Raised CapacityError
       (demo_full_city\<lparr>
          transformers := [demo_transformer\<lparr>current_power := 3\<rparr>],
          charging_stations :=
            [demo_station\<lparr>evs_connected := [Some demo_ev0], current_power_output := 3\<rparr>]\<rparr>)"
  by (simp add: demo_capacity_step) (simp add: demo_defs2 n_ports_def n_evs_connected_def)




text \<open>
  C9. In the random spawn mode, with the random generator in the ranges NumPy documents,
  a call of \<^verbatim>\<open>step\<close> that returns at step counter \<open>t\<close> has spawned at most one EV per
  station: there is one optional EV per station, and the station at position \<open>j\<close> ends as
  its own step left it when there is none; when there is one, the station had fewer EVs
  connected (after its step) than ports (as read before its step), the EV was handed to
  \<^verbatim>\<open>spawn_ev\<close> of that station, which found a free port, its battery capacity at arrival
  lies in \<open>[1, 49)\<close>, its time of arrival is \<open>t + 1\<close>, its earliest time of departure is
  \<open>t + 1\<close> plus an integer in \<open>[7, 15)\<close>, and it is not the case that the port-draining
  policy is on with \<open>t + 1 + 15\<close> at or beyond the simulation length (\<open>spawn_ok\<close>). These
  are all the EVs spawned: the counter of spawned EVs grows by their number, and they are
  what the replay list \<^verbatim>\<open>self.EVs\<close> gains; under the policy, past that point, none is.
\<close>

theorem random_spawn_properties:
  assumes "step D s a = Returned s' (obs, r, d)"
    and "ev_profiles s = None" and "rng_in_range (rng s)"
  shows "\<exists>sps. length sps = length (charging_stations s) \<and>
           (\<forall>j<length (charging_stations s). \<exists>c' cost us.
              step_calls D s a ! j = Some (c', cost, us) \<and>
              spawn_ok s (n_ports (charging_stations s ! j)) c' (sps ! j) (charging_stations s' ! j)) \<and>
           total_evs_spawned s' = total_evs_spawned s + length (spawned sps) \<and>
           EVs s' = EVs s @ (if save_replay s then spawned sps else []) \<and>
           (empty_ports_at_end_of_simulation s \<and>
            simulation_length s \<le> current_step s + 1 + 15 \<longrightarrow> spawned sps = [])"
proof -
  from step_random_spawns[OF assms] obtain sps where
    l: "length sps = length (charging_stations s)" and
    each: "\<forall>j<length (charging_stations s). \<exists>c' cost us.
              step_calls D s a ! j = Some (c', cost, us) \<and>
              spawn_ok s (n_ports (charging_stations s ! j)) c' (sps ! j) (charging_stations s' ! j)" and
    tot: "total_evs_spawned s' = total_evs_spawned s + length (spawned sps)"
         "EVs s' = EVs s @ (if save_replay s then spawned sps else [])"
    by blast
  have "spawned sps = []"
    if pol: "empty_ports_at_end_of_simulation s \<and> simulation_length s \<le> current_step s + 1 + 15"
  proof -
    have "sps ! j = None" if "j < length sps" for j
    proof (cases "sps ! j")
      case None
      then show ?thesis .
    next
      case (Some ev)
      from each that l obtain c' where
        "spawn_ok s (n_ports (charging_stations s ! j)) c' (sps ! j) (charging_stations s' ! j)"
        by auto
      with Some pol show ?thesis
        by (simp add: spawn_ok_def max_stay_of_ev_def)
    qed
    then have "set sps \<subseteq> {None}"
      by (auto simp: in_set_conv_nth)
    then show ?thesis by (rule spawned_all_None)
  qed
  with l each tot show ?thesis by blast
qed

theorem random_spawn_properties_witness:
  "ev_profiles demo_city = None \<and> rng_in_range (rng demo_city) \<and>
   step (mock_externals 3 2 []) demo_city [1] =
     Returned
       (demo_city\<lparr>
          transformers := [demo_transformer\<lparr>current_power := 3\<rparr>],
          charging_stations := [demo_station\<lparr>current_power_output := 3,
             evs_connected := [Some (EV_init None 0 20 1 10)]\<rparr>],
          current_step := 1, sim_date := 5, total_evs_spawned := 1, current_ev_arrived := 1,
          current_evs_parked := 1, EVs := [EV_init None 0 20 1 10], spawn_rate := Some 0.8,
          rng := demo_rng\<lparr>n_calls := 3\<rparr>\<rparr>)
       ([1, 5, 1, 3, 100, 3], 2, False) \<and>
   (\<exists>sps. length sps = 1 \<and> spawned sps = [EV_init None 0 20 1 10] \<and>
      spawn_ok demo_city 1 (demo_station\<lparr>current_power_output := 3\<rparr>) (sps ! 0)
        (demo_station\<lparr>current_power_output := 3,
             evs_connected := [Some (EV_init None 0 20 1 10)]\<rparr>))"
proof -
  have h2: "ev_profiles demo_city = None" by (simp add: demo_defs)
  have h3: "rng_in_range (rng demo_city)" by (simp add: demo_defs rng_in_range_def)
  have calls: "step_calls (mock_externals 3 2 []) demo_city [1] ! 0 =
                 Some (demo_station\<lparr>current_power_output := 3\<rparr>, 2, [])"
    by (simp add: step_calls_def call_station_def price_at_def py_pos_def n_ports_def demo_defs)
  from random_spawn_properties[OF demo_random_step h2 h3] obtain sps where
    l: "length sps = length (charging_stations demo_city)" and
    each: "\<forall>j<length (charging_stations demo_city). \<exists>c' cost us.
              step_calls (mock_externals 3 2 []) demo_city [1] ! j = Some (c', cost, us) \<and>
              spawn_ok demo_city (n_ports (charging_stations demo_city ! j)) c' (sps ! j)
                (charging_stations (demo_city\<lparr>
          transformers := [demo_transformer\<lparr>current_power := 3\<rparr>],
          charging_stations := [demo_station\<lparr>current_power_output := 3,
             evs_connected := [Some (EV_init None 0 20 1 10)]\<rparr>],
          current_step := 1, sim_date := 5, total_evs_spawned := 1, current_ev_arrived := 1,
          current_evs_parked := 1, EVs := [EV_init None 0 20 1 10], spawn_rate := Some 0.8,
          rng := demo_rng\<lparr>n_calls := 3\<rparr>\<rparr>) ! j)" and
    evs: "EVs (demo_city\<lparr>
          transformers := [demo_transformer\<lparr>current_power := 3\<rparr>],
          charging_stations := [demo_station\<lparr>current_power_output := 3,
             evs_connected := [Some (EV_init None 0 20 1 10)]\<rparr>],
          current_step := 1, sim_date := 5, total_evs_spawned := 1, current_ev_arrived := 1,
          current_evs_parked := 1, EVs := [EV_init None 0 20 1 10], spawn_rate := Some 0.8,
          rng := demo_rng\<lparr>n_calls := 3\<rparr>\<rparr>) =
          EVs demo_city @ (if save_replay demo_city then spawned sps else [])"
    by blast
  have l1: "length sps = 1" using l by (simp add: demo_defs)
  have sp: "spawned sps = [EV_init None 0 20 1 10]"
    using evs by (simp add: demo_defs)
  from each have "\<exists>c' cost us.
              step_calls (mock_externals 3 2 []) demo_city [1] ! 0 = Some (c', cost, us) \<and>
              spawn_ok demo_city (n_ports (charging_stations demo_city ! 0)) c' (sps ! 0)
                (demo_station\<lparr>current_power_output := 3,
             evs_connected := [Some (EV_init None 0 20 1 10)]\<rparr>)"
    by (simp add: demo_city_def)
  with calls have ok: "spawn_ok demo_city 1 (demo_station\<lparr>current_power_output := 3\<rparr>) (sps ! 0)
        (demo_station\<lparr>current_power_output := 3,
             evs_connected := [Some (EV_init None 0 20 1 10)]\<rparr>)"
    by (simp add: demo_city_def demo_station_def n_ports_def)
  from l1 sp ok h2 h3 demo_random_step show ?thesis by blast
qed

text \<open>
  C10. When \<^verbatim>\<open>step\<close> raises the ValueError of the maximum stay, the engine is in the
  random spawn mode with a simulation length below 15, the step counter has not been
  advanced and the done flag is still false, but the state has been written to: every
  transformer's accumulator has been zeroed, the first station has been stepped with its
  slice of the actions (from port counter 0) and the prices of this step, the transformer
  it is connected to holds that station's power output, and the end-of-simulation
  port-draining flag has been switched off. No other station has been stepped.
\<close>

theorem max_stay_error_not_atomic:
  assumes "step D s a = Raised ValueError_max_stay s'"
  shows "ev_profiles s = None \<and> simulation_length s < 15 \<and>
         current_step s' = current_step s \<and> \<not> done_flag s \<and> \<not> done_flag s' \<and>
         \<not> empty_ports_at_end_of_simulation s' \<and>
         (\<exists>c rest c' cost us k.
            charging_stations s = c # rest \<and>
            call_station D (charge_prices s) (discharge_prices s) (current_step s) a 0 c
              = Some (c', cost, us) \<and>
            charging_stations s' = c' # rest \<and>
            py_pos (length (transformers s)) (connected_transformer c') = Some k \<and>
            transformers s' =
              (map (\<lambda>tr. tr\<lparr>current_power := 0\<rparr>) (transformers s))
                [k := (transformers s ! k)\<lparr>current_power := current_power_output c'\<rparr>])"
proof -
  from assms obtain c rest where
    nd: "\<not> done_flag s" and cs: "charging_stations s = c # rest" and
    it: "station_iteration D a 0 c locals_init (begin_step s) = Raised ValueError_max_stay s'"
    by (rule step_max_stay)
  from station_iteration_max_stay[OF it] obtain c' cost us k where
    p: "ev_profiles s = None" "simulation_length s < max_stay_of_ev" and
    call: "call_station D (charge_prices s) (discharge_prices s) (current_step s) a 0 c
             = Some (c', cost, us)" and
    k: "py_pos (length (transformers s)) (connected_transformer c') = Some k" and
    s': "s' = (begin_step s)\<lparr>charging_stations := (charging_stations (begin_step s))[0 := c'],
                   transformers :=
                     (transformers (begin_step s))
                       [k := Transformer_step (transformers (begin_step s) ! k) (current_power_output c')],
                   current_ev_departed := current_ev_departed (begin_step s) + length us,
                   empty_ports_at_end_of_simulation := False\<rparr>"
    by (auto simp: begin_step_fields locals_init_def)
  from k have kl: "k < length (transformers s)"
    by (auto simp: py_pos_def Let_def split: if_splits)
  have tr: "transformers s' =
              (map (\<lambda>tr. tr\<lparr>current_power := 0\<rparr>) (transformers s))
                [k := (transformers s ! k)\<lparr>current_power := current_power_output c'\<rparr>]"
    using kl by (simp add: s' begin_step_fields Transformer_step_def)
  have fr: "current_step s' = current_step s" "\<not> done_flag s'"
    "\<not> empty_ports_at_end_of_simulation s'" "charging_stations s' = c' # rest"
    using nd cs by (simp_all add: s' begin_step_fields)
  from p fr nd cs call k tr show ?thesis
    by (simp add: max_stay_of_ev_def)
qed

theorem max_stay_error_not_atomic_witness:
  "step (mock_externals 3 2 [])
     (demo_city\<lparr>simulation_length := 10, transformers := [demo_transformer\<lparr>current_power := 50\<rparr>]\<rparr>) [1] =
     Raised ValueError_max_stay
       (demo_city\<lparr>simulation_length := 10,
          transformers := [demo_transformer\<lparr>current_power := 3\<rparr>],
          charging_stations := [demo_station\<lparr>current_power_output := 3\<rparr>],
          empty_ports_at_end_of_simulation := False\<rparr>) \<and>
   current_step (demo_city\<lparr>simulation_length := 10,
          transformers := [demo_transformer\<lparr>current_power := 3\<rparr>],
          charging_stations := [demo_station\<lparr>current_power_output := 3\<rparr>],
          empty_ports_at_end_of_simulation := False\<rparr>) = 0"
proof -
  have h: "step (mock_externals 3 2 [])
     (demo_city\<lparr>simulation_length := 10, transformers := [demo_transformer\<lparr>current_power := 50\<rparr>]\<rparr>) [1] =
     Raised ValueError_max_stay
       (demo_city\<lparr>simulation_length := 10,
          transformers := [demo_transformer\<lparr>current_power := 3\<rparr>],
          charging_stations := [demo_station\<lparr>current_power_output := 3\<rparr>],
          empty_ports_at_end_of_simulation := False\<rparr>)"
    by (simp add: engine_defs demo_defs Let_def)
  from max_stay_error_not_atomic[OF h] h show ?thesis
    by (simp add: demo_defs)
qed

end
